theory Spec2Isabelle
  imports Complex_Main "HOL-Library.Word" "HOL-Library.List_Lexorder" "HOL-Library.Char_ord"
begin

section \<open>Exceptions\<close>

text \<open>
  The exceptions the code throws and catches, as values. \<open>configuration_error_t\<close> and
  \<open>storage_error_t\<close> have handlers of their own in manifest.cpp and in the server; the node
  service catches \<open>cocaine::error_t\<close>. Anything else (a conversion that the JSON library
  refuses, an exception of the standard library) passes every handler of the code modelled here.
\<close>

datatype exn =
    configuration_error_t string
  | storage_error_t string
  | error_t string
  | foreign_exception string

section \<open>include/cocaine/rpc/upstream.hpp, lines 36 to 79: basic_upstream_t\<close>

datatype states = active | sealed

text \<open>
  An event type \<open>Event\<close> is known to \<open>send\<close> by one trait only: whether its
  \<open>transition_type\<close> is \<open>void\<close>. The arguments are carried along unchanged.
\<close>

record 'a event =
  transition_void :: bool
  payload :: 'a

text \<open>
  The session shared by the upstreams of one connection: \<open>ptr\<close> is the channel pointer, which
  the session owner resets on detach; \<open>written\<close> is what \<open>wr->write\<close> has put on the channel,
  each frame with the index of the upstream that wrote it.
\<close>

record 'a session_t =
  ptr :: bool
  written :: "(64 word \<times> 'a event) list"

record basic_upstream_t =
  index :: "64 word"
  state :: states

definition new_upstream :: "64 word \<Rightarrow> basic_upstream_t" where
  "new_upstream i = \<lparr> index = i, state = active \<rparr>"

definition send :: "'a event \<Rightarrow> basic_upstream_t \<times> 'a session_t \<Rightarrow> basic_upstream_t \<times> 'a session_t" where
  "send ev us =
     (let u = fst us; s = snd us in
      if state u \<noteq> active then (u, s)
      else
        let u' = (if transition_void ev then u\<lparr> state := sealed \<rparr> else u) in
        if ptr s then (u', s\<lparr> written := written s @ [(index u, ev)] \<rparr>)
        else (u', s))"

text \<open>
  What can happen to one upstream over time: the service sends an event through it, or the
  session owner changes the channel pointer between two sends.
\<close>

datatype 'a action = Send "'a event" | SetPtr bool

fun step :: "'a action \<Rightarrow> basic_upstream_t \<times> 'a session_t \<Rightarrow> basic_upstream_t \<times> 'a session_t" where
  "step (Send ev) us = send ev us"
| "step (SetPtr b) us = (fst us, (snd us)\<lparr> ptr := b \<rparr>)"

fun run :: "'a action list \<Rightarrow> basic_upstream_t \<times> 'a session_t \<Rightarrow> basic_upstream_t \<times> 'a session_t" where
  "run [] us = us"
| "run (a # as) us = run as (step a us)"

text \<open>The frames a run has added to the channel.\<close>

definition emitted :: "'a action list \<Rightarrow> basic_upstream_t \<times> 'a session_t \<Rightarrow> (64 word \<times> 'a event) list" where
  "emitted as us = drop (length (written (snd us))) (written (snd (run as us)))"

definition terminal :: "64 word \<times> 'a event \<Rightarrow> bool" where
  "terminal f = transition_void (snd f)"

text \<open>Only the last frame of a sequence may be a terminal one.\<close>

definition only_last_terminal :: "(64 word \<times> 'a event) list \<Rightarrow> bool" where
  "only_last_terminal w = (\<forall>f \<in> set (butlast w). \<not> terminal f)"

text \<open>Two events for the examples: a chunk, which keeps the stream open, and a choke, which ends it.\<close>

definition chunk_ev :: "string event" where "chunk_ev = \<lparr> transition_void = False, payload = ''hi'' \<rparr>"

definition choke_ev :: "string event" where "choke_ev = \<lparr> transition_void = True, payload = [] \<rparr>"

section \<open>Logging\<close>

text \<open>The priorities of forwards.hpp. A log record is a priority, the formatted message and the attributes.\<close>

datatype priorities = debug | info | warning | error

type_synonym log_record = "priorities \<times> string \<times> (string \<times> string) list"

text \<open>\<open>e.what()\<close>.\<close>

fun what :: "exn \<Rightarrow> string" where
  "what (configuration_error_t m) = m"
| "what (storage_error_t m) = m"
| "what (error_t m) = m"
| "what (foreign_exception m) = m"

text \<open>
  What a handler \<open>catch(const cocaine::error_t&)\<close> catches: \<open>cocaine::error_t\<close> and the classes
  derived from it. An exception of any other type passes through.
\<close>

fun is_error_t :: "exn \<Rightarrow> bool" where
  "is_error_t (foreign_exception m) = False"
| "is_error_t e = True"

text \<open>A number as \<open>%d\<close> prints it.\<close>

fun show_nat :: "nat \<Rightarrow> string" where
  "show_nat n = (if n < 10 then [''0123456789'' ! n] else show_nat (n div 10) @ [''0123456789'' ! (n mod 10)])"

section \<open>std::map and std::set with string keys\<close>

text \<open>
  A \<open>std::map<std::string, V>\<close> is a list of pairs kept in ascending key order, one pair per
  key; iteration runs through the list. \<open>insert\<close> leaves the map alone when the key is there.
\<close>

definition map_find :: "(string \<times> 'v) list \<Rightarrow> string \<Rightarrow> 'v option" where
  "map_find m k = map_of m k"

definition map_insert :: "string \<Rightarrow> 'v \<Rightarrow> (string \<times> 'v) list \<Rightarrow> (string \<times> 'v) list" where
  "map_insert k v m = (if map_find m k = None then insort_key fst (k, v) m else m)"


text \<open>Writing through an iterator: \<open>it->second\<close> changed in place.\<close>

definition map_assign :: "string \<Rightarrow> 'v \<Rightarrow> (string \<times> 'v) list \<Rightarrow> (string \<times> 'v) list" where
  "map_assign k v m = map (\<lambda>kv. if fst kv = k then (k, v) else kv) m"

definition is_std_map :: "(string \<times> 'v) list \<Rightarrow> bool" where
  "is_std_map m = sorted_wrt (<) (map fst m)"

section \<open>src/app.cpp, lines 200 to 318: node_t of the node service\<close>

text \<open>
  \<open>app_t\<close> of the node service is built from a name and a profile name and is started and
  paused; each of the three may throw. Its code is not part of what is modelled here, so the
  three operations are parameters.
\<close>

record 'app app_api =
  app_new :: "string \<Rightarrow> string \<Rightarrow> exn + 'app"
  app_start :: "'app \<Rightarrow> exn + 'app"
  app_pause :: "'app \<Rightarrow> exn + 'app"

record 'app node_t =
  m_apps :: "(string \<times> 'app) list"
  m_log :: "log_record list"

definition node_log :: "priorities \<Rightarrow> string \<Rightarrow> (string \<times> string) list \<Rightarrow> 'app node_t \<Rightarrow> 'app node_t" where
  "node_log p msg attrs n = n\<lparr> m_log := m_log n @ [(p, msg, attrs)] \<rparr>"

text \<open>
  \<open>on_start_app\<close>. The app is inserted before it is started, so an app whose \<open>start()\<close>
  throws stays in the map as it was built.
\<close>

definition on_start_app :: "'app app_api \<Rightarrow> string \<Rightarrow> string \<Rightarrow> 'app node_t \<Rightarrow> (exn + unit) \<times> 'app node_t" where
  "on_start_app api name profile n =
     (case map_find (m_apps n) name of
        Some a \<Rightarrow> (Inl (error_t (''app '' @ [CHR 0x27] @ name @ [CHR 0x27] @ '' is already running'')), n)
      | None \<Rightarrow>
          let n1 = node_log info ''starting app'' [(''app'', name)] n in
          (case app_new api name profile of
             Inl e \<Rightarrow> (Inl e, n1)
           | Inr a \<Rightarrow>
               let n2 = n1\<lparr> m_apps := map_insert name a (m_apps n1) \<rparr> in
               (case app_start api a of
                  Inl e \<Rightarrow> (Inl e, n2)
                | Inr a' \<Rightarrow> (Inr (), n2\<lparr> m_apps := map_assign name a' (m_apps n2) \<rparr>))))"


definition on_list :: "'app node_t \<Rightarrow> string list" where
  "on_list n = map fst (m_apps n)"

text \<open>
  The loop of the constructor over the runlist: a \<open>cocaine::error_t\<close> thrown by
  \<open>on_start_app\<close> is logged with the name of the app and the loop goes on; any other
  exception leaves the constructor.
\<close>

fun start_runlist :: "'app app_api \<Rightarrow> (string \<times> string) list \<Rightarrow> 'app node_t \<Rightarrow> exn + 'app node_t" where
  "start_runlist api [] n = Inr n"
| "start_runlist api (entry # rest) n =
     (case on_start_app api (fst entry) (snd entry) n of
        (Inr u, n') \<Rightarrow> start_runlist api rest n'
      | (Inl e, n') \<Rightarrow>
          if is_error_t e
          then start_runlist api rest
                 (node_log error (''unable to initialize app: '' @ what e) [(''app'', fst entry)] n')
          else Inl e)"

text \<open>
  The name of the runlist: \<open>args.as_object().at("runlist", "default").as_string()\<close>, with the
  arguments as the map from their keys to their string values.
\<close>

definition runlist_id :: "(string \<Rightarrow> string option) \<Rightarrow> string" where
  "runlist_id args = (case args ''runlist'' of None \<Rightarrow> ''default'' | Some v \<Rightarrow> v)"

text \<open>
  The constructor. \<open>storage\<close> is \<open>get<std::map<std::string, std::string>>\<close> of the core
  storage: for a collection and a key, the runlist or the exception thrown. Only a
  \<open>storage_error_t\<close> is caught there, and the runlist then stays empty.
\<close>

definition node_t_ctor ::
  "'app app_api \<Rightarrow> (string \<Rightarrow> string \<Rightarrow> exn + (string \<times> string) list) \<Rightarrow> (string \<Rightarrow> string option) \<Rightarrow> exn + 'app node_t" where
  "node_t_ctor api storage args =
     (let n0 = \<lparr> m_apps = [], m_log = [] \<rparr>;
          n1 = node_log info ''reading runlist'' [(''runlist'', runlist_id args)] n0
      in case (case storage ''runlists'' (runlist_id args) of
                 Inr rl \<Rightarrow> Inr (rl, n1)
               | Inl (storage_error_t m) \<Rightarrow>
                   Inr ([], node_log warning (''unable to read runlist: '' @ m) [(''runlist'', runlist_id args)] n1)
               | Inl e \<Rightarrow> Inl e) of
           Inl e \<Rightarrow> Inl e
         | Inr (runlist, n2) \<Rightarrow>
             if runlist = [] then Inr n2
             else start_runlist api runlist
                    (node_log info (''starting '' @ show_nat (length runlist) @ '' app(s)'') [] n2))"




text \<open>An app for the examples: its name, its profile and whether it runs; an app named \<open>bad\<close> cannot be built.\<close>

record demo_app =
  app_name :: string
  app_profile :: string
  app_running :: bool

definition demo_api :: "demo_app app_api" where
  "demo_api = \<lparr>
     app_new = (\<lambda>name profile.
        if name = ''bad'' then Inl (configuration_error_t ''no such app'')
        else Inr \<lparr> app_name = name, app_profile = profile, app_running = False \<rparr>),
     app_start = (\<lambda>a. Inr (a\<lparr> app_running := True \<rparr>)),
     app_pause = (\<lambda>a. Inr (a\<lparr> app_running := False \<rparr>)) \<rparr>"

text \<open>What starting one runlist entry on a node without that app leaves behind: the exception if any, the app in the map if any.\<close>

definition entry_failure :: "'app app_api \<Rightarrow> string \<times> string \<Rightarrow> exn option" where
  "entry_failure api entry =
     (case app_new api (fst entry) (snd entry) of
        Inl e \<Rightarrow> Some e
      | Inr a \<Rightarrow> (case app_start api a of Inl e \<Rightarrow> Some e | Inr a' \<Rightarrow> None))"

definition entry_app :: "'app app_api \<Rightarrow> string \<times> string \<Rightarrow> 'app option" where
  "entry_app api entry =
     (case app_new api (fst entry) (snd entry) of
        Inl e \<Rightarrow> None
      | Inr a \<Rightarrow> (case app_start api a of Inl e \<Rightarrow> Some a | Inr a' \<Rightarrow> Some a'))"

definition entry_log :: "'app app_api \<Rightarrow> string \<times> string \<Rightarrow> log_record list" where
  "entry_log api entry =
     (info, ''starting app'', [(''app'', fst entry)]) #
     (case entry_failure api entry of
        None \<Rightarrow> []
      | Some e \<Rightarrow> [(error, ''unable to initialize app: '' @ what e, [(''app'', fst entry)])])"

definition demo_storage :: "string \<Rightarrow> string \<Rightarrow> exn + (string \<times> string) list" where
  "demo_storage collection key =
     (if collection = ''runlists'' \<and> key = ''default''
      then Inr [(''a'', ''p''), (''bad'', ''p''), (''c'', ''q'')]
      else Inl (storage_error_t ''the specified object has not been found''))"

text \<open>No arguments; and apps of which \<open>bad\<close> fails with an exception that is not a \<open>cocaine::error_t\<close>.\<close>

definition no_args :: "string \<Rightarrow> string option" where
  "no_args key = None"

definition foreign_api :: "demo_app app_api" where
  "foreign_api = demo_api\<lparr> app_new := (\<lambda>name profile.
       if name = ''bad'' then Inl (foreign_exception ''std::bad_alloc'')
       else Inr \<lparr> app_name = name, app_profile = profile, app_running = False \<rparr>) \<rparr>"


section \<open>include/cocaine/rpc/upstream.hpp, lines 372 to 478: server_t\<close>

text \<open>
  \<open>engine_t\<close> is built from the name of an app, started and stopped, and reports its state;
  each of these may throw. Its code is not part of what is modelled here, so the operations
  are parameters.
\<close>

record ('e, 'i) engine_api =
  engine_new :: "string \<Rightarrow> exn + 'e"
  engine_start :: "'e \<Rightarrow> exn + 'e"
  engine_stop :: "'e \<Rightarrow> exn + 'e"
  engine_info :: "'e \<Rightarrow> exn + 'i"

text \<open>\<open>m_engines\<close> is a \<open>boost::ptr_map\<close> from names to engines, ordered by name.\<close>

record 'e server_t =
  m_engines :: "(string \<times> 'e) list"

text \<open>
  \<open>create_engine\<close>. The new engine lives in an \<open>auto_ptr\<close> until it is inserted: when
  \<open>start()\<close> or \<open>info()\<close> throws, it is destroyed and the map is as before.
\<close>

definition create_engine :: "('e, 'i) engine_api \<Rightarrow> string \<Rightarrow> 'e server_t \<Rightarrow> exn + ('i \<times> 'e server_t)" where
  "create_engine api name s =
     (if map_find (m_engines s) name \<noteq> None
      then Inl (configuration_error_t ''the specified app already exists'')
      else case engine_new api name of
             Inl e \<Rightarrow> Inl e
           | Inr engine \<Rightarrow>
               (case engine_start api engine of
                  Inl e \<Rightarrow> Inl e
                | Inr engine' \<Rightarrow>
                    (case engine_info api engine' of
                       Inl e \<Rightarrow> Inl e
                     | Inr result \<Rightarrow>
                         Inr (result, s\<lparr> m_engines := map_insert name engine' (m_engines s) \<rparr>))))"

text \<open>\<open>std::set<std::string>(first, last)\<close>: the elements inserted one by one.\<close>

definition set_insert :: "string \<Rightarrow> string list \<Rightarrow> string list" where
  "set_insert x s = (if x \<in> set s then s else insort x s)"

definition std_set :: "string list \<Rightarrow> string list" where
  "std_set xs = fold set_insert xs []"

text \<open>\<open>std::set_symmetric_difference\<close> on two sorted ranges.\<close>

fun set_symmetric_difference :: "string list \<Rightarrow> string list \<Rightarrow> string list" where
  "set_symmetric_difference [] ys = ys"
| "set_symmetric_difference (x # xs) [] = x # xs"
| "set_symmetric_difference (x # xs) (y # ys) =
     (if x < y then x # set_symmetric_difference xs (y # ys)
      else if y < x then y # set_symmetric_difference (x # xs) ys
      else set_symmetric_difference xs ys)"

text \<open>
  The loop of \<open>recover\<close> over \<open>diff\<close>. An exception leaves the loop with the engines as
  they are at that point.
\<close>

fun recover_loop :: "('e, 'i) engine_api \<Rightarrow> string list \<Rightarrow> 'e server_t \<Rightarrow> exn option \<times> 'e server_t" where
  "recover_loop api [] s = (None, s)"
| "recover_loop api (name # rest) s =
     (case map_find (m_engines s) name of
        None \<Rightarrow>
          (case create_engine api name s of
             Inl e \<Rightarrow> (Some e, s)
           | Inr (result, s') \<Rightarrow> recover_loop api rest s')
      | Some engine \<Rightarrow>
          (case engine_stop api engine of
             Inl e \<Rightarrow> (Some e, s)
           | Inr engine' \<Rightarrow>
               recover_loop api rest (s\<lparr> m_engines := map_assign name engine' (m_engines s) \<rparr>)))"

text \<open>
  \<open>recover\<close>. \<open>storage\<close> is \<open>list\<close> of the core storage: for a collection, its keys or the
  exception thrown, which \<open>recover\<close> lets through.
\<close>

definition recover :: "('e, 'i) engine_api \<Rightarrow> (string \<Rightarrow> exn + string list) \<Rightarrow> 'e server_t \<Rightarrow> exn option \<times> 'e server_t" where
  "recover api storage s =
     (case storage ''apps'' of
        Inl e \<Rightarrow> (Some e, s)
      | Inr apps \<Rightarrow>
          let available = std_set apps;
              active = map fst (m_engines s);
              diff = set_symmetric_difference active available
          in if diff \<noteq> [] then recover_loop api diff s else (None, s))"

text \<open>An engine for the examples: the name of its app and whether it runs.\<close>

definition demo_engines :: "(string \<times> bool, string) engine_api" where
  "demo_engines = \<lparr>
     engine_new = (\<lambda>name. Inr (name, False)),
     engine_start = (\<lambda>e. Inr (fst e, True)),
     engine_stop = (\<lambda>e. Inr (fst e, False)),
     engine_info = (\<lambda>e. Inr (fst e)) \<rparr>"

definition demo_apps :: "string \<Rightarrow> exn + string list" where
  "demo_apps collection =
     (if collection = ''apps'' then Inr [''b'', ''a'', ''b'']
      else Inl (storage_error_t ''the specified collection has not been found''))"

definition demo_server :: "(string \<times> bool) server_t" where
  "demo_server = \<lparr> m_engines = [(''b'', (''b'', True)), (''z'', (''z'', True))] \<rparr>"

section \<open>Json::Value\<close>

text \<open>
  \<open>Json::Value\<close> of the jsoncpp library, with the value types of its \<open>ValueType\<close>. The
  members of an object are a \<open>std::map\<close> from names to values. The library is not part of
  the repository; the accessors below are those of its releases of 2012, which manifest.cpp uses.
\<close>

datatype json =
    nullValue
  | intValue int
  | uintValue nat
  | realValue real
  | stringValue string
  | booleanValue bool
  | arrayValue "json list"
  | objectValue "(string \<times> json) list"

text \<open>A conversion the library refuses throws \<open>std::runtime_error\<close>.\<close>

fun asString :: "json \<Rightarrow> exn + string" where
  "asString nullValue = Inr []"
| "asString (stringValue s) = Inr s"
| "asString (booleanValue b) = Inr (if b then ''true'' else ''false'')"
| "asString v = Inl (foreign_exception ''Type is not convertible to string'')"

fun asDouble :: "json \<Rightarrow> exn + real" where
  "asDouble nullValue = Inr 0"
| "asDouble (intValue i) = Inr (of_int i)"
| "asDouble (uintValue n) = Inr (of_nat n)"
| "asDouble (realValue r) = Inr r"
| "asDouble (booleanValue b) = Inr (if b then 1 else 0)"
| "asDouble v = Inl (foreign_exception ''Type is not convertible to double'')"

text \<open>\<open>Json::UInt\<close> is \<open>unsigned int\<close>.\<close>

fun asUInt :: "json \<Rightarrow> exn + 32 word" where
  "asUInt nullValue = Inr 0"
| "asUInt (intValue i) =
     (if 0 \<le> i \<and> i < 2 ^ 32 then Inr (word_of_int i)
      else Inl (foreign_exception ''Negative integer can not be converted to unsigned integer''))"
| "asUInt (uintValue n) =
     (if n < 2 ^ 32 then Inr (word_of_nat n)
      else Inl (foreign_exception ''Unsigned integer out of UInt range''))"
| "asUInt (realValue r) =
     (if 0 \<le> r \<and> r \<le> 4294967295 then Inr (word_of_nat (nat \<lfloor>r\<rfloor>))
      else Inl (foreign_exception ''Real out of unsigned integer range''))"
| "asUInt (booleanValue b) = Inr (if b then 1 else 0)"
| "asUInt v = Inl (foreign_exception ''Type is not convertible to uint'')"

text \<open>
  \<open>operator[]\<close> with a member name needs a null value or an object. On a value that is not
  const it turns null into an object and inserts a null member under a name that is missing:
  the result is the member and the value after that.
\<close>

fun subscript :: "json \<Rightarrow> string \<Rightarrow> exn + json \<times> json" where
  "subscript nullValue key = Inr (nullValue, objectValue [(key, nullValue)])"
| "subscript (objectValue ms) key =
     (case map_find ms key of
        Some v \<Rightarrow> Inr (v, objectValue ms)
      | None \<Rightarrow> Inr (nullValue, objectValue (map_insert key nullValue ms)))"
| "subscript v key = Inl (foreign_exception ''assertion failed: type_ == nullValue || type_ == objectValue'')"

text \<open>\<open>root[key] = v\<close>.\<close>

fun assign_member :: "json \<Rightarrow> string \<Rightarrow> json \<Rightarrow> exn + json" where
  "assign_member nullValue key v = Inr (objectValue [(key, v)])"
| "assign_member (objectValue ms) key v =
     (case map_find ms key of
        Some old \<Rightarrow> Inr (objectValue (map_assign key v ms))
      | None \<Rightarrow> Inr (objectValue (map_insert key v ms)))"
| "assign_member j key v = Inl (foreign_exception ''assertion failed: type_ == nullValue || type_ == objectValue'')"

text \<open>\<open>Value::get(key, defaultValue)\<close>: the member, or the default when there is no member of that name.\<close>

fun get :: "json \<Rightarrow> string \<Rightarrow> json \<Rightarrow> exn + json" where
  "get nullValue key d = Inr d"
| "get (objectValue ms) key d = (case map_find ms key of Some v \<Rightarrow> Inr v | None \<Rightarrow> Inr d)"
| "get v key d = Inl (foreign_exception ''assertion failed: type_ == nullValue || type_ == objectValue'')"

text \<open>One step after another, as long as nothing is thrown.\<close>

definition and_then :: "exn + 'a \<Rightarrow> ('a \<Rightarrow> exn + 'b) \<Rightarrow> exn + 'b" where
  "and_then r f = (case r of Inl e \<Rightarrow> Inl e | Inr x \<Rightarrow> f x)"

section \<open>src/manifest.cpp: manifest_t\<close>

text \<open>
  The policy of an engine. A time value is the real number that the floating-point field holds
  after the assignment; the conversion on the way into the field is \<open>time_field\<close> below.
\<close>

record policy_t =
  startup_timeout :: real
  heartbeat_timeout :: real
  idle_timeout :: real
  termination_timeout :: real
  pool_limit :: "32 word"
  queue_limit :: "32 word"
  grow_threshold :: "32 word"

record manifest_t =
  manifest_name :: string
  manifest_root :: json
  manifest_path :: string
  manifest_type :: string
  policy :: policy_t
  slave :: string

text \<open>
  What the constructor takes from outside manifest.cpp: the spool path of the configuration, the
  constants of \<open>defaults\<close>, and \<open>time_field\<close>, the conversion of the \<open>double\<close> that
  \<open>asDouble\<close> returns into the type of the time values of the policy, which manifest.hpp
  declares. They are parameters.
\<close>

record context_t =
  spool_path :: string
  time_field :: "real \<Rightarrow> real"
  default_startup_timeout :: real
  default_heartbeat_timeout :: real
  default_idle_timeout :: real
  default_termination_timeout :: real
  default_pool_limit :: nat
  default_queue_limit :: nat
  default_slave :: string

text \<open>
  A storage backend: what \<open>get<Json::Value>\<close> and \<open>get<std::string>\<close> return for a
  collection and a key, or the message of the \<open>storage_error_t\<close> they throw, and the
  message of the \<open>storage_error_t\<close> that \<open>put\<close> throws there, if it does.
\<close>

record storage_t =
  documents :: "string \<times> string \<Rightarrow> string + json"
  blobs :: "string \<times> string \<Rightarrow> string + string"
  put_error :: "string \<times> string \<Rightarrow> string option"

text \<open>\<open>put\<close> of a document: the storage with the document in it, or the message of the exception.\<close>

definition storage_put :: "storage_t \<Rightarrow> string \<times> string \<Rightarrow> json \<Rightarrow> string + storage_t" where
  "storage_put s k v =
     (case put_error s k of
        Some m \<Rightarrow> Inl m
      | None \<Rightarrow> Inr (s\<lparr> documents := (documents s)(k := Inr v) \<rparr>))"

text \<open>What the constructor does to the world around it, in the order in which it does it.\<close>

datatype effect =
    Log priorities string
  | CacheGet string string
  | CachePut string string json
  | CoreGet string string
  | RemoveAll string
  | ArchiveDeploy string string

text \<open>
  The world: the storages \<open>storage/cache\<close> and \<open>storage/core\<close>, the directories under the spool
  with the archive unpacked in each, the message of the \<open>filesystem_error\<close> that
  \<open>remove_all\<close> throws for a path and of the \<open>archive_error_t\<close> that an archive throws, if
  they do, and the effects so far.
\<close>

record world =
  cache :: storage_t
  core :: storage_t
  spool :: "string \<Rightarrow> string option"
  remove_error :: "string \<Rightarrow> string option"
  archive_error :: "string \<Rightarrow> string option"
  trace :: "effect list"

fun is_log :: "effect \<Rightarrow> bool" where
  "is_log (Log p m) = True"
| "is_log e = False"

definition emit :: "effect \<Rightarrow> world \<Rightarrow> world" where
  "emit e w = w\<lparr> trace := trace w @ [e] \<rparr>"

text \<open>\<open>(boost::filesystem::path(p) / q).string()\<close>.\<close>

definition path_append :: "string \<Rightarrow> string \<Rightarrow> string" where
  "path_append p q =
     (if q = [] then p
      else if hd q = CHR ''/'' then p @ q
      else if p \<noteq> [] \<and> last p \<noteq> CHR ''/'' then p @ ''/'' @ q
      else p @ q)"

definition not_available :: "string \<Rightarrow> exn" where
  "not_available name = configuration_error_t (''the '' @ [CHR 0x27] @ name @ [CHR 0x27] @ '' app is not available'')"

text \<open>\<open>deploy\<close>: the root and the path it leaves in the manifest, or the exception.\<close>

definition deploy :: "context_t \<Rightarrow> string \<Rightarrow> world \<Rightarrow> (exn + json \<times> string) \<times> world" where
  "deploy ctx name w =
     (let w1 = emit (CoreGet ''manifests'' name) w in
      case documents (core w1) (''manifests'', name) of
        Inl m \<Rightarrow>
          (Inl (not_available name),
           emit (Log error (''unable to fetch the app from the storage - '' @ m)) w1)
      | Inr doc \<Rightarrow>
          let w2 = emit (CoreGet ''apps'' name) w1 in
          (case blobs (core w2) (''apps'', name) of
             Inl m \<Rightarrow>
               (Inl (not_available name),
                emit (Log error (''unable to fetch the app from the storage - '' @ m)) w2)
           | Inr blob \<Rightarrow>
               let path = path_append (spool_path ctx) name;
                   w3 = emit (Log info (''deploying the app to '' @ [CHR 0x27] @ path @ [CHR 0x27])) w2;
                   w4 = emit (RemoveAll path) w3
               in (case remove_error w4 path of
                     Some m \<Rightarrow>
                       (Inl (not_available name),
                        emit (Log warning (''unable to clean up the app files - '' @ m)) w4)
                   | None \<Rightarrow>
                       let w5 = w4\<lparr> spool := (spool w4)(path := None) \<rparr> in
                       (case archive_error w5 blob of
                          Some m \<Rightarrow>
                            (Inl (not_available name),
                             emit (Log error (''unable to extract the app files - '' @ m)) w5)
                        | None \<Rightarrow>
                            let w6 = (emit (ArchiveDeploy path blob) w5)\<lparr> spool := (spool w5)(path \<mapsto> blob) \<rparr> in
                            (case assign_member doc ''path'' (stringValue path) of
                               Inl e \<Rightarrow> (Inl e, w6)
                             | Inr doc' \<Rightarrow> (Inr (doc', path), w6))))))"

text \<open>
  The first part of the constructor: the manifest from the cache, or deployed from the core
  storage and put into the cache.
\<close>

definition load :: "context_t \<Rightarrow> string \<Rightarrow> world \<Rightarrow> (exn + json \<times> string) \<times> world" where
  "load ctx name w =
     (let w1 = emit (CacheGet ''manifests'' name) w in
      case documents (cache w1) (''manifests'', name) of
        Inr doc \<Rightarrow>
          (and_then (subscript doc ''path'') (\<lambda>(v, doc'). and_then (asString v) (\<lambda>path. Inr (doc', path))), w1)
      | Inl m \<Rightarrow>
          let w2 = emit (Log info ''the manifest hasn't been found in the cache'') w1 in
          (case deploy ctx name w2 of
             (Inl e, w3) \<Rightarrow> (Inl e, w3)
           | (Inr (doc, path), w3) \<Rightarrow>
               let w4 = emit (CachePut ''manifests'' name doc) w3 in
               (case storage_put (cache w4) (''manifests'', name) doc of
                  Inl m' \<Rightarrow>
                    (Inl (not_available name),
                     emit (Log warning (''unable to cache the manifest - '' @ m')) w4)
                | Inr cache' \<Rightarrow> (Inr (doc, path), w4\<lparr> cache := cache' \<rparr>))))"

text \<open>
  \<open>root["engine"].get(key, d).asDouble()\<close>, \<open>.asUInt()\<close> and \<open>.asString()\<close>, with the default
  as the JSON value the constructor of \<open>Json::Value\<close> makes of it.
\<close>

definition read_double :: "json \<Rightarrow> string \<Rightarrow> real \<Rightarrow> exn + real" where
  "read_double engine key d = and_then (get engine key (realValue d)) asDouble"

definition read_uint :: "json \<Rightarrow> string \<Rightarrow> nat \<Rightarrow> exn + 32 word" where
  "read_uint engine key d = and_then (get engine key (uintValue d)) asUInt"

definition read_string :: "json \<Rightarrow> string \<Rightarrow> string \<Rightarrow> exn + string" where
  "read_string engine key d = and_then (get engine key (stringValue d)) asString"

text \<open>
  The policies of the engine, read from the member \<open>engine\<close> of the root in the order of the
  constructor, each check where the constructor has it: first the four time values, then the
  three limits. A time value is assigned to its field of the policy, and the check is on the
  field: \<open>policy.startup_timeout <= 0.0f\<close>.
\<close>

definition engine_timeouts :: "context_t \<Rightarrow> json \<Rightarrow> exn + real \<times> real \<times> real \<times> real" where
  "engine_timeouts ctx engine =
     and_then (read_double engine ''startup-timeout'' (default_startup_timeout ctx)) (\<lambda>startup.
     if time_field ctx startup \<le> 0
     then Inl (configuration_error_t ''slave startup timeout must be positive'') else
     and_then (read_double engine ''heartbeat-timeout'' (default_heartbeat_timeout ctx)) (\<lambda>heartbeat.
     if time_field ctx heartbeat \<le> 0
     then Inl (configuration_error_t ''slave heartbeat timeout must be positive'') else
     and_then (read_double engine ''idle-timeout'' (default_idle_timeout ctx)) (\<lambda>idle.
     if time_field ctx idle \<le> 0
     then Inl (configuration_error_t ''slave idle timeout must be positive'') else
     and_then (read_double engine ''termination-timeout'' (default_termination_timeout ctx)) (\<lambda>termination.
     Inr (time_field ctx startup, time_field ctx heartbeat, time_field ctx idle,
          time_field ctx termination)))))"

text \<open>
  \<open>static_cast<Json::UInt>\<close> of a default keeps its low 32 bits. The default of the grow
  threshold is the quotient of the two limits read before it.
\<close>

definition engine_limits :: "context_t \<Rightarrow> json \<Rightarrow> exn + 32 word \<times> 32 word \<times> 32 word" where
  "engine_limits ctx engine =
     and_then (read_uint engine ''pool-limit'' (default_pool_limit ctx mod 2 ^ 32)) (\<lambda>pool.
     if pool = 0 then Inl (configuration_error_t ''engine pool limit must be positive'') else
     and_then (read_uint engine ''queue-limit'' (default_queue_limit ctx mod 2 ^ 32)) (\<lambda>queue.
     and_then (read_uint engine ''grow-threshold'' (unat (queue div pool))) (\<lambda>grow.
     if grow = 0 then Inl (configuration_error_t ''engine grow threshold must be positive'') else
     Inr (pool, queue, grow))))"

definition engine_policy :: "context_t \<Rightarrow> json \<Rightarrow> exn + policy_t" where
  "engine_policy ctx engine =
     and_then (engine_timeouts ctx engine) (\<lambda>(startup, heartbeat, idle, termination).
     and_then (engine_limits ctx engine) (\<lambda>(pool, queue, grow).
     Inr \<lparr> startup_timeout = startup, heartbeat_timeout = heartbeat, idle_timeout = idle,
           termination_timeout = termination, pool_limit = pool, queue_limit = queue,
           grow_threshold = grow \<rparr>))"

text \<open>
  The second part of the constructor. \<open>root["engine"]\<close> inserts a null member when there is
  none; every later \<open>root["engine"]\<close> finds that member and changes nothing, so the member is
  looked up once.
\<close>

definition configure :: "context_t \<Rightarrow> string \<Rightarrow> json \<Rightarrow> string \<Rightarrow> exn + manifest_t" where
  "configure ctx name doc path =
     and_then (subscript doc ''type'') (\<lambda>(v, doc1).
     and_then (asString v) (\<lambda>type.
     and_then (subscript doc1 ''engine'') (\<lambda>(engine, doc2).
     and_then (engine_policy ctx engine) (\<lambda>p.
     and_then (read_string engine ''slave'' (default_slave ctx)) (\<lambda>s.
     Inr \<lparr> manifest_name = name, manifest_root = doc2, manifest_path = path,
           manifest_type = type, policy = p, slave = s \<rparr>)))))"

definition manifest_t_ctor :: "context_t \<Rightarrow> string \<Rightarrow> world \<Rightarrow> (exn + manifest_t) \<times> world" where
  "manifest_t_ctor ctx name w =
     (case load ctx name w of
        (Inl e, w') \<Rightarrow> (Inl e, w')
      | (Inr (doc, path), w') \<Rightarrow> (configure ctx name doc path, w'))"

text \<open>
  The whole of the second part as a function of the document found in the cache:
  \<open>path = root["path"].asString()\<close> and then the configuration.
\<close>

definition manifest_of_document :: "context_t \<Rightarrow> string \<Rightarrow> json \<Rightarrow> exn + manifest_t" where
  "manifest_of_document ctx name doc =
     and_then (subscript doc ''path'') (\<lambda>(v, doc').
     and_then (asString v) (\<lambda>path. configure ctx name doc' path))"

text \<open>The member of a name, if the value is an object that has one; the member \<open>engine\<close> or null.\<close>

fun lookup :: "json \<Rightarrow> string \<Rightarrow> json option" where
  "lookup (objectValue ms) key = map_find ms key"
| "lookup v key = None"

definition doc_engine :: "json \<Rightarrow> json" where
  "doc_engine doc = (case lookup doc ''engine'' of Some v \<Rightarrow> v | None \<Rightarrow> nullValue)"

text \<open>
  A valid manifest of a name: a manifest value with that name whose root has the members
  \<open>path\<close>, \<open>type\<close> and \<open>engine\<close>, and whose path, type, policy and slave are what these
  members say.
\<close>

definition valid_manifest :: "context_t \<Rightarrow> string \<Rightarrow> manifest_t \<Rightarrow> bool" where
  "valid_manifest ctx name m =
     (manifest_name m = name \<and>
      (case lookup (manifest_root m) ''path'' of
         Some v \<Rightarrow> asString v = Inr (manifest_path m) | None \<Rightarrow> False) \<and>
      (case lookup (manifest_root m) ''type'' of
         Some v \<Rightarrow> asString v = Inr (manifest_type m) | None \<Rightarrow> False) \<and>
      (case lookup (manifest_root m) ''engine'' of
         Some e \<Rightarrow> engine_policy ctx e = Inr (policy m) \<and>
                   read_string e ''slave'' (default_slave ctx) = Inr (slave m)
       | None \<Rightarrow> False))"

text \<open>
  For the examples: a conversion that takes to zero what lies below the smallest \<open>float\<close> and
  keeps every other value; a context with a spool path and defaults; a storage without objects;
  and a world whose core storage holds the app \<open>echo\<close>.
\<close>

definition demo_time_field :: "real \<Rightarrow> real" where
  "demo_time_field x = (if \<bar>x\<bar> \<le> 1 / 2 ^ 150 then 0 else x)"

definition demo_context :: context_t where
  "demo_context = \<lparr> spool_path = ''/var/spool/cocaine'', time_field = demo_time_field,
     default_startup_timeout = 10, default_heartbeat_timeout = 30, default_idle_timeout = 600,
     default_termination_timeout = 5, default_pool_limit = 10, default_queue_limit = 100,
     default_slave = ''/usr/bin/cocaine-slave'' \<rparr>"

definition empty_storage :: storage_t where
  "empty_storage = \<lparr> documents = (\<lambda>k. Inl ''the specified object has not been found''),
     blobs = (\<lambda>k. Inl ''the specified object has not been found''),
     put_error = (\<lambda>k. None) \<rparr>"

definition demo_core :: storage_t where
  "demo_core = empty_storage\<lparr>
     documents := (documents empty_storage)((''manifests'', ''echo'') :=
        Inr (objectValue [(''engine'', objectValue [(''pool-limit'', uintValue 4)]), (''type'', stringValue ''python'')])),
     blobs := (blobs empty_storage)((''apps'', ''echo'') := Inr ''archive-bytes'') \<rparr>"

definition demo_world :: world where
  "demo_world = \<lparr> cache = empty_storage, core = demo_core, spool = (\<lambda>p. None),
     remove_error = (\<lambda>p. None), archive_error = (\<lambda>b. None), trace = [] \<rparr>"

definition demo_readonly_world :: world where
  "demo_readonly_world = demo_world\<lparr> cache := empty_storage\<lparr> put_error := (\<lambda>k. Some ''read-only storage'') \<rparr> \<rparr>"

text \<open>\<open>root["type"].asString()\<close>.\<close>

definition doc_type :: "json \<Rightarrow> exn + string" where
  "doc_type doc = and_then (subscript doc ''type'') (\<lambda>(v, doc'). asString v)"

text \<open>A world whose cache holds one manifest document for the app \<open>echo\<close>.\<close>

definition cached_world :: "json \<Rightarrow> world" where
  "cached_world doc = demo_world\<lparr> cache := empty_storage\<lparr>
     documents := (documents empty_storage)((''manifests'', ''echo'') := Inr doc) \<rparr> \<rparr>"

text \<open>Engine sections for the examples.\<close>

definition no_pool_engine :: json where
  "no_pool_engine = objectValue [(''pool-limit'', uintValue 0)]"

definition small_queue_engine :: json where
  "small_queue_engine = objectValue [(''pool-limit'', uintValue 4), (''queue-limit'', uintValue 2)]"

definition small_queue_doc :: json where
  "small_queue_doc = objectValue [(''engine'', small_queue_engine),
     (''path'', stringValue ''/var/spool/cocaine/echo''), (''type'', stringValue ''python'')]"



text \<open>A manifest value for the app \<open>echo\<close> that is not the one of the core storage, and a world without apps in the core storage.\<close>

definition demo_manifest :: manifest_t where
  "demo_manifest = \<lparr> manifest_name = ''echo'',
     manifest_root = objectValue
       [(''engine'', objectValue [(''heartbeat-timeout'', realValue 7), (''pool-limit'', uintValue 3),
                                  (''slave'', stringValue ''/opt/slave'')]),
        (''path'', stringValue ''/srv/echo''), (''type'', stringValue ''binary'')],
     manifest_path = ''/srv/echo'', manifest_type = ''binary'',
     policy = \<lparr> startup_timeout = 10, heartbeat_timeout = 7, idle_timeout = 600,
       termination_timeout = 5, pool_limit = 3, queue_limit = 100, grow_threshold = 33 \<rparr>,
     slave = ''/opt/slave'' \<rparr>"

definition demo_cache :: storage_t where
  "demo_cache = empty_storage\<lparr> documents :=
     (documents empty_storage)((''manifests'', ''echo'') := Inr (manifest_root demo_manifest)) \<rparr>"

definition bare_world :: world where
  "bare_world = \<lparr> cache = empty_storage, core = empty_storage, spool = (\<lambda>p. None),
     remove_error = (\<lambda>p. None), archive_error = (\<lambda>b. None), trace = [] \<rparr>"

text \<open>An engine section whose startup timeout is a positive \<open>double\<close> below the smallest \<open>float\<close>.\<close>

definition tiny_startup_engine :: json where
  "tiny_startup_engine = objectValue [(''startup-timeout'', realValue (1 / 10 ^ 46))]"

text \<open>The engine section with a queue limit below the pool limit, and a grow threshold of 3 added to it.\<close>

definition explicit_grow_engine :: json where
  "explicit_grow_engine = objectValue
     [(''grow-threshold'', uintValue 3), (''pool-limit'', uintValue 4), (''queue-limit'', uintValue 2)]"

definition explicit_grow_doc :: json where
  "explicit_grow_doc = objectValue [(''engine'', explicit_grow_engine),
     (''path'', stringValue ''/var/spool/cocaine/echo''), (''type'', stringValue ''python'')]"

section \<open>basic_upstream_t: a sealed upstream stays silent\<close>

lemma send_sealed: "state (fst us) = sealed \<Longrightarrow> send ev us = us"
  by (simp add: send_def Let_def)

lemma run_sealed: "state (fst us) = sealed \<Longrightarrow> written (snd (run as us)) = written (snd us)"
proof (induction as arbitrary: us)
  case Nil
  then show ?case by simp
next
  case (Cons a as)
  then show ?case by (cases a) (simp_all add: send_sealed)
qed

lemma only_last_terminal_Cons:
  "\<not> terminal f \<Longrightarrow> only_last_terminal w \<Longrightarrow> only_last_terminal (f # w)"
  by (simp add: only_last_terminal_def)

lemma run_written:
  "\<exists>w. written (snd (run as us)) = written (snd us) @ w \<and> only_last_terminal w"
proof (induction as arbitrary: us)
  case Nil
  show ?case by (simp add: only_last_terminal_def)
next
  case (Cons a as)
  show ?case
  proof (cases a)
    case (SetPtr b)
    with Cons.IH [of "(fst us, (snd us)\<lparr> ptr := b \<rparr>)"] show ?thesis by simp
  next
    case (Send ev)
    show ?thesis
    proof (cases "state (fst us) = active")
      case False
      then have "state (fst us) = sealed" by (cases "state (fst us)") simp_all
      then have "written (snd (run (a # as) us)) = written (snd us)" by (rule run_sealed)
      then show ?thesis by (simp add: only_last_terminal_def)
    next
      case act: True
      show ?thesis
      proof (cases "transition_void ev")
        case True
        with act have "state (fst (send ev us)) = sealed" by (simp add: send_def Let_def)
        then have "written (snd (run as (send ev us))) = written (snd (send ev us))"
          by (rule run_sealed)
        moreover have "\<exists>w. written (snd (send ev us)) = written (snd us) @ w \<and> length w \<le> 1"
          using act by (simp add: send_def Let_def)
        ultimately obtain w where "written (snd (run (a # as) us)) = written (snd us) @ w" "length w \<le> 1"
          using Send by auto
        moreover from \<open>length w \<le> 1\<close> have "only_last_terminal w"
          by (cases w) (simp_all add: only_last_terminal_def)
        ultimately show ?thesis by blast
      next
        case False
        from Cons.IH [of "send ev us"] obtain w where
          w: "written (snd (run as (send ev us))) = written (snd (send ev us)) @ w" "only_last_terminal w"
          by blast
        show ?thesis
        proof (cases "ptr (snd us)")
          case True
          with act have "written (snd (send ev us)) = written (snd us) @ [(index (fst us), ev)]"
            by (simp add: send_def Let_def)
          with w Send have "written (snd (run (a # as) us)) = written (snd us) @ ((index (fst us), ev) # w)"
            by simp
          moreover have "only_last_terminal ((index (fst us), ev) # w)"
            using False w(2) by (intro only_last_terminal_Cons) (simp_all add: terminal_def)
          ultimately show ?thesis by blast
        next
          case np: False
          with act have "written (snd (send ev us)) = written (snd us)"
            by (simp add: send_def Let_def)
          with w Send show ?thesis by auto
        qed
      qed
    qed
  qed
qed

lemma emitted_only_last_terminal: "only_last_terminal (emitted as us)"
proof -
  obtain w where "written (snd (run as us)) = written (snd us) @ w" "only_last_terminal w"
    using run_written by blast
  then show ?thesis by (simp add: emitted_def)
qed

lemma only_last_terminal_split:
  assumes "only_last_terminal w" "w = pre @ f # post" "terminal f"
  shows "post = []"
proof (rule ccontr)
  assume "post \<noteq> []"
  then have "f \<in> set (butlast w)" using assms(2) by (simp add: butlast_append)
  with assms(1,3) show False by (simp add: only_last_terminal_def)
qed

lemma only_last_terminal_count:
  assumes "only_last_terminal w"
  shows "length (filter terminal w) \<le> 1"
proof (cases w rule: rev_cases)
  case Nil
  then show ?thesis by simp
next
  case (snoc ys y)
  with assms have "filter terminal ys = []" by (auto simp: only_last_terminal_def filter_empty_conv)
  with snoc show ?thesis by simp
qed

text \<open>
  C10. Sending an event whose transition type is void through an active upstream seals it, and a
  sealed upstream ignores every send. So, whatever the sequence of sends on one upstream and
  whatever happens to the channel pointer in between, the frames that reach the channel hold
  at most one terminal event, and no frame follows it.
\<close>

theorem upstream_seals_after_terminal:
  "(state u = active \<and> transition_void ev \<longrightarrow> state (fst (send ev (u, s))) = sealed) \<and>
   (state u = sealed \<longrightarrow> send ev (u, s) = (u, s)) \<and>
   length (filter terminal (emitted as (u, s))) \<le> 1 \<and>
   (\<forall>pre f post. emitted as (u, s) = pre @ f # post \<and> terminal f \<longrightarrow> post = [])"
proof (intro conjI)
  show "state u = active \<and> transition_void ev \<longrightarrow> state (fst (send ev (u, s))) = sealed"
    by (simp add: send_def Let_def)
  show "state u = sealed \<longrightarrow> send ev (u, s) = (u, s)"
    by (simp add: send_sealed)
  show "length (filter terminal (emitted as (u, s))) \<le> 1"
    by (rule only_last_terminal_count [OF emitted_only_last_terminal])
  show "\<forall>pre f post. emitted as (u, s) = pre @ f # post \<and> terminal f \<longrightarrow> post = []"
    using only_last_terminal_split [OF emitted_only_last_terminal] by blast
qed

text \<open>A run with two chunks and two chokes: the first chunk and the first choke are written, nothing else.\<close>

theorem upstream_seals_after_terminal_witness:
  "state (new_upstream 7) = active \<and> transition_void choke_ev \<and>
   state (fst (send choke_ev (new_upstream 7, \<lparr> ptr = True, written = [] \<rparr>))) = sealed \<and>
   emitted [Send chunk_ev, Send choke_ev, Send chunk_ev, Send choke_ev]
      (new_upstream 7, \<lparr> ptr = True, written = [] \<rparr>) = [(7, chunk_ev)] @ (7, choke_ev) # [] \<and>
   terminal (7 :: 64 word, choke_ev)"
  using upstream_seals_after_terminal [of "new_upstream 7" choke_ev "\<lparr> ptr = True, written = [] \<rparr>"
      "[Send chunk_ev, Send choke_ev, Send chunk_ev, Send choke_ev]"]
  by (simp add: new_upstream_def send_def emitted_def terminal_def chunk_ev_def choke_ev_def Let_def)

section \<open>node_t: the registry and the runlist\<close>

subsection \<open>std::map\<close>


lemma map_find_None_iff: "map_find m k = None \<longleftrightarrow> k \<notin> set (map fst m)"
  by (simp add: map_find_def map_of_eq_None_iff)




lemma map_of_insort:
  "fst kv \<notin> set (map fst m) \<Longrightarrow> map_of (insort_key fst kv m) k = (if k = fst kv then Some (snd kv) else map_of m k)"
proof (induction m)
  case Nil
  then show ?case by (cases kv) simp
next
  case (Cons x m)
  then show ?case by (cases kv; cases x) auto
qed



lemma map_find_insert:
  "map_find m k = None \<Longrightarrow> map_find (map_insert k v m) k' = (if k' = k then Some v else map_find m k')"
proof -
  assume a: "map_find m k = None"
  then have "fst (k, v) \<notin> set (map fst m)" by (simp add: map_find_None_iff)
  from map_of_insort [OF this, of k'] a show ?thesis
    by (simp add: map_insert_def map_find_def)
qed



lemma map_find_assign:
  "map_find (map_assign k v m) k' = (if k' = k \<and> map_find m k \<noteq> None then Some v else map_find m k')"
  by (induction m) (auto simp: map_assign_def map_find_def)




subsection \<open>The registry\<close>








subsection \<open>The constructor\<close>

lemma on_start_app_fresh:
  assumes "map_find (m_apps n) name = None"
  shows "fst (on_start_app api name profile n) =
           (case entry_failure api (name, profile) of None \<Rightarrow> Inr () | Some e \<Rightarrow> Inl e)"
    and "m_log (snd (on_start_app api name profile n)) = m_log n @ [(info, ''starting app'', [(''app'', name)])]"
    and "map_find (m_apps (snd (on_start_app api name profile n))) k =
           (if k = name then entry_app api (name, profile) else map_find (m_apps n) k)"
  using assms
  by (auto simp: on_start_app_def node_log_def Let_def entry_failure_def entry_app_def
        map_find_assign map_find_insert split: sum.splits)

lemma start_runlist_all:
  assumes "distinct (map fst rl)"
      and "\<forall>entry \<in> set rl. map_find (m_apps n) (fst entry) = None"
      and "\<forall>entry \<in> set rl. \<forall>e. entry_failure api entry = Some e \<longrightarrow> is_error_t e"
  shows "\<exists>n'. start_runlist api rl n = Inr n' \<and>
           m_log n' = m_log n @ concat (map (entry_log api) rl) \<and>
           (\<forall>k. map_find (m_apps n') k =
                 (case map_of rl k of None \<Rightarrow> map_find (m_apps n) k | Some profile \<Rightarrow> entry_app api (k, profile)))"
  using assms
proof (induction rl arbitrary: n)
  case Nil
  then show ?case by simp
next
  case (Cons entry rl)
  obtain name profile where entry: "entry = (name, profile)" by (cases entry)
  from Cons.prems entry have fresh: "map_find (m_apps n) name = None" by simp
  note st = on_start_app_fresh [OF fresh, of api profile]
  obtain r n1 where r: "on_start_app api name profile n = (r, n1)" by (cases "on_start_app api name profile n")
  define n2 where "n2 = (case entry_failure api entry of None \<Rightarrow> n1
      | Some e \<Rightarrow> node_log error (''unable to initialize app: '' @ what e) [(''app'', name)] n1)"
  have apps2: "m_apps n2 = m_apps n1"
    by (simp add: n2_def node_log_def split: option.splits)
  have log2: "m_log n2 = m_log n @ entry_log api entry"
    using st(2) r entry by (simp add: n2_def node_log_def entry_log_def split: option.splits)
  have find2: "\<And>k. map_find (m_apps n2) k = (if k = name then entry_app api entry else map_find (m_apps n) k)"
    using st(3) r entry apps2 by simp
  have step: "start_runlist api (entry # rl) n = start_runlist api rl n2"
  proof (cases "entry_failure api entry")
    case None
    with st(1) r entry show ?thesis by (simp add: n2_def)
  next
    case (Some e)
    with Cons.prems(3) have "is_error_t e" by simp
    with Some st(1) r entry show ?thesis by (simp add: n2_def)
  qed
  have "distinct (map fst rl)" using Cons.prems(1) by simp
  moreover have "\<forall>entry' \<in> set rl. map_find (m_apps n2) (fst entry') = None"
    using Cons.prems(1,2) entry find2 by force
  moreover have "\<forall>entry' \<in> set rl. \<forall>e. entry_failure api entry' = Some e \<longrightarrow> is_error_t e"
    using Cons.prems(3) by simp
  ultimately obtain n' where n': "start_runlist api rl n2 = Inr n'"
      "m_log n' = m_log n2 @ concat (map (entry_log api) rl)"
      "\<And>k. map_find (m_apps n') k =
            (case map_of rl k of None \<Rightarrow> map_find (m_apps n2) k | Some profile \<Rightarrow> entry_app api (k, profile))"
    using Cons.IH [of n2] by blast
  have "name \<notin> fst ` set rl" using Cons.prems(1) entry by auto
  then have nomap: "map_of rl name = None" by (simp add: map_of_eq_None_iff)
  have "\<forall>k. map_find (m_apps n') k =
       (case map_of (entry # rl) k of None \<Rightarrow> map_find (m_apps n) k | Some profile \<Rightarrow> entry_app api (k, profile))"
    using n'(3) find2 nomap entry by (auto split: option.splits)
  with step n'(1,2) log2 show ?case by simp
qed

text \<open>
  When every failure to build or start an app of the runlist is a \<open>cocaine::error_t\<close>, the
  loop reaches the end of the runlist and the node is constructed.
\<close>

lemma node_boot_caught:
  assumes "storage ''runlists'' (runlist_id args) = Inr rl"
      and "distinct (map fst rl)"
      and "\<forall>entry \<in> set rl.
             (\<forall>e. app_new api (fst entry) (snd entry) = Inl e \<longrightarrow> is_error_t e) \<and>
             (\<forall>a e. app_new api (fst entry) (snd entry) = Inr a \<and> app_start api a = Inl e \<longrightarrow> is_error_t e)"
  shows "runlist_id args = (case args ''runlist'' of None \<Rightarrow> ''default'' | Some v \<Rightarrow> v) \<and>
         (\<forall>storage'. storage' ''runlists'' (runlist_id args) = storage ''runlists'' (runlist_id args) \<longrightarrow>
            node_t_ctor api storage' args = node_t_ctor api storage args) \<and>
         (\<exists>n. node_t_ctor api storage args = Inr n \<and>
            (\<forall>entry \<in> set rl.
               (info, ''starting app'', [(''app'', fst entry)]) \<in> set (m_log n) \<and>
               (\<forall>a a'. app_new api (fst entry) (snd entry) = Inr a \<and> app_start api a = Inr a' \<longrightarrow>
                  map_find (m_apps n) (fst entry) = Some a') \<and>
               (\<forall>e. app_new api (fst entry) (snd entry) = Inl e \<or>
                     (\<exists>a. app_new api (fst entry) (snd entry) = Inr a \<and> app_start api a = Inl e) \<longrightarrow>
                  (error, ''unable to initialize app: '' @ what e, [(''app'', fst entry)]) \<in> set (m_log n))))"
proof -
  let ?P = "\<lambda>n entry.
          (info, ''starting app'', [(''app'', fst entry)]) \<in> set (m_log n) \<and>
          (\<forall>a a'. app_new api (fst entry) (snd entry) = Inr a \<and> app_start api a = Inr a' \<longrightarrow>
             map_find (m_apps n) (fst entry) = Some a') \<and>
          (\<forall>e. app_new api (fst entry) (snd entry) = Inl e \<or>
                (\<exists>a. app_new api (fst entry) (snd entry) = Inr a \<and> app_start api a = Inl e) \<longrightarrow>
             (error, ''unable to initialize app: '' @ what e, [(''app'', fst entry)]) \<in> set (m_log n))"
  have id: "runlist_id args = (case args ''runlist'' of None \<Rightarrow> ''default'' | Some v \<Rightarrow> v)"
    by (simp add: runlist_id_def)
  have frame: "\<forall>storage'. storage' ''runlists'' (runlist_id args) = storage ''runlists'' (runlist_id args) \<longrightarrow>
            node_t_ctor api storage' args = node_t_ctor api storage args"
    by (simp add: node_t_ctor_def)
  define n0 :: "'a node_t" where
    "n0 = node_log info ''reading runlist'' [(''runlist'', runlist_id args)] \<lparr> m_apps = [], m_log = [] \<rparr>"
  define n1 where "n1 = (if rl = [] then n0
     else node_log info (''starting '' @ show_nat (length rl) @ '' app(s)'') [] n0)"
  have apps1: "m_apps n1 = []" by (simp add: n1_def n0_def node_log_def)
  have ctor: "node_t_ctor api storage args = start_runlist api rl n1"
    using assms(1) by (simp add: node_t_ctor_def n1_def n0_def Let_def del: show_nat.simps)
  have fails: "\<forall>entry \<in> set rl. \<forall>e. entry_failure api entry = Some e \<longrightarrow> is_error_t e"
    using assms(3) by (auto simp: entry_failure_def split: sum.splits)
  have fresh: "\<forall>entry \<in> set rl. map_find (m_apps n1) (fst entry) = None"
    by (simp add: apps1 map_find_def)
  from start_runlist_all [OF assms(2) fresh fails] obtain n where n:
    "start_runlist api rl n1 = Inr n"
    "m_log n = m_log n1 @ concat (map (entry_log api) rl)"
    "\<And>k. map_find (m_apps n) k =
        (case map_of rl k of None \<Rightarrow> map_find (m_apps n1) k | Some profile \<Rightarrow> entry_app api (k, profile))"
    by blast
  have all: "\<forall>entry \<in> set rl. ?P n entry"
  proof
    fix entry assume mem: "entry \<in> set rl"
    then have sub: "set (entry_log api entry) \<subseteq> set (m_log n)"
      using n(2) by auto
    have "map_of rl (fst entry) = Some (snd entry)"
      using map_of_is_SomeI [OF assms(2), of "fst entry" "snd entry"] mem by simp
    then have app: "map_find (m_apps n) (fst entry) = entry_app api entry"
      using n(3) [of "fst entry"] by simp
    show "?P n entry"
    proof (intro conjI allI impI)
      show "(info, ''starting app'', [(''app'', fst entry)]) \<in> set (m_log n)"
        using sub by (simp add: entry_log_def)
    next
      fix a a' assume "app_new api (fst entry) (snd entry) = Inr a \<and> app_start api a = Inr a'"
      then show "map_find (m_apps n) (fst entry) = Some a'"
        using app by (simp add: entry_app_def)
    next
      fix e assume "app_new api (fst entry) (snd entry) = Inl e \<or>
                (\<exists>a. app_new api (fst entry) (snd entry) = Inr a \<and> app_start api a = Inl e)"
      then have "entry_failure api entry = Some e"
        by (auto simp: entry_failure_def)
      then show "(error, ''unable to initialize app: '' @ what e, [(''app'', fst entry)]) \<in> set (m_log n)"
        using sub by (simp add: entry_log_def)
    qed
  qed
  have "node_t_ctor api storage args = Inr n" using ctor n(1) by simp
  with all have ex: "\<exists>n. node_t_ctor api storage args = Inr n \<and> (\<forall>entry \<in> set rl. ?P n entry)"
    by (intro exI [of _ n] conjI)
  show ?thesis by (intro conjI id frame ex)
qed

text \<open>
  The handler of the loop is for \<open>cocaine::error_t\<close>: an exception of another type leaves the
  constructor at the first entry that throws it, whatever follows in the runlist.
\<close>

lemma node_boot_foreign:
  assumes "storage ''runlists'' (runlist_id args) = Inr ((name, profile) # rl)"
      and "app_new api name profile = Inl (foreign_exception m)"
  shows "node_t_ctor api storage args = Inl (foreign_exception m)"
  using assms by (simp add: node_t_ctor_def on_start_app_def node_log_def map_find_def Let_def del: show_nat.simps)

lemma start_runlist_append:
  "start_runlist api (pre @ rest) n =
     (case start_runlist api pre n of Inl e \<Rightarrow> Inl e | Inr n' \<Rightarrow> start_runlist api rest n')"
  by (induction pre arbitrary: n) (auto split: prod.splits sum.splits)

lemma node_boot_aborts:
  assumes "storage ''runlists'' (runlist_id args) = Inr (pre @ entry # post)"
      and "distinct (map fst (pre @ entry # post))"
      and "\<forall>x \<in> set pre. \<forall>e. entry_failure api x = Some e \<longrightarrow> is_error_t e"
      and "entry_failure api entry = Some e"
      and "\<not> is_error_t e"
  shows "node_t_ctor api storage args = Inl e"
proof -
  define n0 :: "'a node_t" where
    "n0 = node_log info ''reading runlist'' [(''runlist'', runlist_id args)] \<lparr> m_apps = [], m_log = [] \<rparr>"
  define n1 where
    "n1 = node_log info (''starting '' @ show_nat (length (pre @ entry # post)) @ '' app(s)'') [] n0"
  have apps1: "m_apps n1 = []" by (simp add: n1_def n0_def node_log_def)
  have ctor: "node_t_ctor api storage args = start_runlist api (pre @ entry # post) n1"
    using assms(1) by (simp add: node_t_ctor_def n1_def n0_def Let_def del: show_nat.simps)
  have dpre: "distinct (map fst pre)" using assms(2) by simp
  have fresh: "\<forall>x \<in> set pre. map_find (m_apps n1) (fst x) = None"
    by (simp add: apps1 map_find_def)
  from start_runlist_all [OF dpre fresh assms(3)] obtain n where n:
    "start_runlist api pre n1 = Inr n"
    "\<And>k. map_find (m_apps n) k =
        (case map_of pre k of None \<Rightarrow> map_find (m_apps n1) k | Some profile \<Rightarrow> entry_app api (k, profile))"
    by blast
  have "fst entry \<notin> fst ` set pre" using assms(2) by auto
  then have "map_of pre (fst entry) = None" by (simp add: map_of_eq_None_iff)
  then have none: "map_find (m_apps n) (fst entry) = None"
    using n(2) [of "fst entry"] by (simp add: apps1 map_find_def)
  have "fst (on_start_app api (fst entry) (snd entry) n) = Inl e"
    using on_start_app_fresh(1) [OF none, of api "snd entry"] assms(4) by simp
  then obtain n' where "on_start_app api (fst entry) (snd entry) n = (Inl e, n')"
    by (cases "on_start_app api (fst entry) (snd entry) n") auto
  then have "start_runlist api (entry # post) n = Inl e"
    using assms(5) by simp
  then show ?thesis using ctor n(1) by (simp add: start_runlist_append)
qed

text \<open>
  A \<open>storage_error_t\<close> on reading the runlist is logged, and the node starts without apps.
\<close>

lemma node_boot_storage_error:
  assumes "storage ''runlists'' (runlist_id args) = Inl (storage_error_t m)"
  shows "\<exists>n. node_t_ctor api storage args = Inr n \<and> m_apps n = []"
  using assms by (simp add: node_t_ctor_def node_log_def Let_def)

text \<open>
  C4 as stated fails. The runlist names three apps; building the second throws an exception that
  is not a \<open>cocaine::error_t\<close>, the third can be built: the exception leaves the constructor, no
  node is constructed and the third app is never started.
\<close>

theorem node_boot_counterexample:
  "demo_storage ''runlists'' (runlist_id no_args) = Inr [(''a'', ''p''), (''bad'', ''p''), (''c'', ''q'')] \<and>
   app_new foreign_api ''bad'' ''p'' = Inl (foreign_exception ''std::bad_alloc'') \<and>
   app_new foreign_api ''c'' ''q'' = Inr \<lparr> app_name = ''c'', app_profile = ''q'', app_running = False \<rparr> \<and>
   node_t_ctor foreign_api demo_storage no_args = Inl (foreign_exception ''std::bad_alloc'')"
  by (simp add: demo_storage_def runlist_id_def no_args_def foreign_api_def demo_api_def node_t_ctor_def
        on_start_app_def node_log_def map_find_def map_insert_def map_assign_def Let_def)

text \<open>
  C4, as the code has it. The constructor reads the runlist at collection \<open>runlists\<close> and the key
  given by the argument \<open>runlist\<close>, or \<open>default\<close> without it, and at no other key. For the runlist
  the storage returns: when every failure to build or start one of its apps is a
  \<open>cocaine::error_t\<close>, the node is constructed, \<open>on_start_app\<close> has run for every entry, every app
  that can be built and started is registered as started, and every failure is in the log as an error
  record with the name of its app; when an entry fails with an exception that is not a
  \<open>cocaine::error_t\<close>, and the failures of the entries before it are of that class, the
  constructor throws that exception and constructs no node.
\<close>

theorem node_boot:
  assumes "storage ''runlists'' (runlist_id args) = Inr rl"
      and "distinct (map fst rl)"
  shows "runlist_id args = (case args ''runlist'' of None \<Rightarrow> ''default'' | Some v \<Rightarrow> v) \<and>
         (\<forall>storage'. storage' ''runlists'' (runlist_id args) = storage ''runlists'' (runlist_id args) \<longrightarrow>
            node_t_ctor api storage' args = node_t_ctor api storage args) \<and>
         ((\<forall>entry \<in> set rl.
             (\<forall>e. app_new api (fst entry) (snd entry) = Inl e \<longrightarrow> is_error_t e) \<and>
             (\<forall>a e. app_new api (fst entry) (snd entry) = Inr a \<and> app_start api a = Inl e \<longrightarrow> is_error_t e)) \<longrightarrow>
          (\<exists>n. node_t_ctor api storage args = Inr n \<and>
            (\<forall>entry \<in> set rl.
               (info, ''starting app'', [(''app'', fst entry)]) \<in> set (m_log n) \<and>
               (\<forall>a a'. app_new api (fst entry) (snd entry) = Inr a \<and> app_start api a = Inr a' \<longrightarrow>
                  map_find (m_apps n) (fst entry) = Some a') \<and>
               (\<forall>e. app_new api (fst entry) (snd entry) = Inl e \<or>
                     (\<exists>a. app_new api (fst entry) (snd entry) = Inr a \<and> app_start api a = Inl e) \<longrightarrow>
                  (error, ''unable to initialize app: '' @ what e, [(''app'', fst entry)]) \<in> set (m_log n))))) \<and>
         (\<forall>pre entry post e.
            rl = pre @ entry # post \<and>
            (\<forall>x \<in> set pre.
               (\<forall>e'. app_new api (fst x) (snd x) = Inl e' \<longrightarrow> is_error_t e') \<and>
               (\<forall>a e'. app_new api (fst x) (snd x) = Inr a \<and> app_start api a = Inl e' \<longrightarrow> is_error_t e')) \<and>
            (app_new api (fst entry) (snd entry) = Inl e \<or>
             (\<exists>a. app_new api (fst entry) (snd entry) = Inr a \<and> app_start api a = Inl e)) \<and>
            \<not> is_error_t e \<longrightarrow>
            node_t_ctor api storage args = Inl e)"
proof (intro conjI allI impI)
  show "runlist_id args = (case args ''runlist'' of None \<Rightarrow> ''default'' | Some v \<Rightarrow> v)"
    by (simp add: runlist_id_def)
next
  fix storage'
  assume "storage' ''runlists'' (runlist_id args) = storage ''runlists'' (runlist_id args)"
  then show "node_t_ctor api storage' args = node_t_ctor api storage args"
    by (simp add: node_t_ctor_def)
next
  assume caught: "\<forall>entry \<in> set rl.
             (\<forall>e. app_new api (fst entry) (snd entry) = Inl e \<longrightarrow> is_error_t e) \<and>
             (\<forall>a e. app_new api (fst entry) (snd entry) = Inr a \<and> app_start api a = Inl e \<longrightarrow> is_error_t e)"
  from node_boot_caught [of storage args rl api, OF assms caught]
  show "\<exists>n. node_t_ctor api storage args = Inr n \<and>
            (\<forall>entry \<in> set rl.
               (info, ''starting app'', [(''app'', fst entry)]) \<in> set (m_log n) \<and>
               (\<forall>a a'. app_new api (fst entry) (snd entry) = Inr a \<and> app_start api a = Inr a' \<longrightarrow>
                  map_find (m_apps n) (fst entry) = Some a') \<and>
               (\<forall>e. app_new api (fst entry) (snd entry) = Inl e \<or>
                     (\<exists>a. app_new api (fst entry) (snd entry) = Inr a \<and> app_start api a = Inl e) \<longrightarrow>
                  (error, ''unable to initialize app: '' @ what e, [(''app'', fst entry)]) \<in> set (m_log n)))"
    by blast
next
  fix pre entry post e
  assume h: "rl = pre @ entry # post \<and>
            (\<forall>x \<in> set pre.
               (\<forall>e'. app_new api (fst x) (snd x) = Inl e' \<longrightarrow> is_error_t e') \<and>
               (\<forall>a e'. app_new api (fst x) (snd x) = Inr a \<and> app_start api a = Inl e' \<longrightarrow> is_error_t e')) \<and>
            (app_new api (fst entry) (snd entry) = Inl e \<or>
             (\<exists>a. app_new api (fst entry) (snd entry) = Inr a \<and> app_start api a = Inl e)) \<and>
            \<not> is_error_t e"
  have st: "storage ''runlists'' (runlist_id args) = Inr (pre @ entry # post)"
    using assms(1) h by simp
  have di: "distinct (map fst (pre @ entry # post))"
    using assms(2) h by simp
  have fails: "\<forall>x \<in> set pre. \<forall>e. entry_failure api x = Some e \<longrightarrow> is_error_t e"
    using h by (auto simp: entry_failure_def split: sum.splits)
  have fail: "entry_failure api entry = Some e"
    using h by (auto simp: entry_failure_def)
  from h have "\<not> is_error_t e" by simp
  with st di fails fail show "node_t_ctor api storage args = Inl e"
    by (rule node_boot_aborts)
qed

text \<open>
  A runlist of three apps, the second of which cannot be built. When the failure is a
  configuration error, the node is constructed with the first and the third; when it is an
  exception of another type, the constructor throws it.
\<close>

theorem node_boot_witness:
  "demo_storage ''runlists'' (runlist_id no_args) = Inr [(''a'', ''p''), (''bad'', ''p''), (''c'', ''q'')] \<and>
   distinct (map fst [(''a'', ''p''), (''bad'', ''p''), (''c'', ''q'')]) \<and>
   app_new demo_api ''bad'' ''p'' = Inl (configuration_error_t ''no such app'') \<and>
   is_error_t (configuration_error_t ''no such app'') \<and>
   (\<exists>n. node_t_ctor demo_api demo_storage no_args = Inr n \<and>
        on_list n = [''a'', ''c''] \<and>
        (error, ''unable to initialize app: no such app'', [(''app'', ''bad'')]) \<in> set (m_log n) \<and>
        (info, ''starting app'', [(''app'', ''c'')]) \<in> set (m_log n)) \<and>
   app_new foreign_api ''bad'' ''p'' = Inl (foreign_exception ''std::bad_alloc'') \<and>
   \<not> is_error_t (foreign_exception ''std::bad_alloc'') \<and>
   node_t_ctor foreign_api demo_storage no_args = Inl (foreign_exception ''std::bad_alloc'')"
  using node_boot [where storage = demo_storage and args = no_args and api = demo_api
          and rl = "[(''a'', ''p''), (''bad'', ''p''), (''c'', ''q'')]"]
        node_boot [where storage = demo_storage and args = no_args and api = foreign_api
          and rl = "[(''a'', ''p''), (''bad'', ''p''), (''c'', ''q'')]"]
  by (simp add: demo_storage_def runlist_id_def no_args_def demo_api_def foreign_api_def node_t_ctor_def
        on_start_app_def node_log_def map_find_def map_insert_def map_assign_def on_list_def Let_def)


section \<open>server_t: recovery\<close>

lemma set_insert_props:
  "sorted s \<and> distinct s \<Longrightarrow> sorted (set_insert x s) \<and> distinct (set_insert x s) \<and> set (set_insert x s) = insert x (set s)"
  by (auto simp: set_insert_def sorted_insort distinct_insort set_insort_key)

lemma fold_set_insert:
  "sorted s \<and> distinct s \<Longrightarrow>
   sorted (fold set_insert xs s) \<and> distinct (fold set_insert xs s) \<and> set (fold set_insert xs s) = set xs \<union> set s"
proof (induction xs arbitrary: s)
  case Nil
  then show ?case by simp
next
  case (Cons x xs)
  from set_insert_props [OF Cons.prems, of x] Cons.IH [of "set_insert x s"]
  show ?case by auto
qed

lemma std_set_props: "sorted_wrt (<) (std_set xs) \<and> set (std_set xs) = set xs"
  using fold_set_insert [of "[]" xs] by (simp add: std_set_def strict_sorted_iff)

lemma set_symmetric_difference_props:
  "sorted_wrt (<) xs \<Longrightarrow> sorted_wrt (<) ys \<Longrightarrow>
   sorted_wrt (<) (set_symmetric_difference xs ys) \<and>
   set (set_symmetric_difference xs ys) = (set xs - set ys) \<union> (set ys - set xs)"
proof (induction xs ys rule: set_symmetric_difference.induct)
  case (1 ys)
  then show ?case by simp
next
  case (2 x xs)
  then show ?case by simp
next
  case (3 x xs y ys)
  show ?case
  proof (cases "x < y")
    case True
    with 3 have ih: "sorted_wrt (<) (set_symmetric_difference xs (y # ys))"
      "set (set_symmetric_difference xs (y # ys)) = (set xs - set (y # ys)) \<union> (set (y # ys) - set xs)"
      by simp_all
    from 3(4,5) True have "\<forall>z \<in> set (y # ys). x < z" "\<forall>z \<in> set xs. x < z" by auto
    with ih True show ?thesis by auto
  next
    case False
    show ?thesis
    proof (cases "y < x")
      case yx: True
      with 3 False have ih: "sorted_wrt (<) (set_symmetric_difference (x # xs) ys)"
        "set (set_symmetric_difference (x # xs) ys) = (set (x # xs) - set ys) \<union> (set ys - set (x # xs))"
        by simp_all
      from 3(4,5) yx have "\<forall>z \<in> set (x # xs). y < z" "\<forall>z \<in> set ys. y < z" by auto
      with ih yx False show ?thesis by auto
    next
      case nyx: False
      with False have eq: "x = y" by simp
      with 3 False nyx have ih: "sorted_wrt (<) (set_symmetric_difference xs ys)"
        "set (set_symmetric_difference xs ys) = (set xs - set ys) \<union> (set ys - set xs)"
        by simp_all
      from 3(4,5) eq have "x \<notin> set xs" "y \<notin> set ys" by auto
      with ih eq show ?thesis by auto
    qed
  qed
qed

lemma create_engine_fresh:
  assumes "create_engine api name s = Inr (result, s')"
  shows "map_find (m_engines s) name = None \<and>
         (\<exists>e0 e1. engine_new api name = Inr e0 \<and> engine_start api e0 = Inr e1 \<and>
            (\<forall>k. map_find (m_engines s') k = (if k = name then Some e1 else map_find (m_engines s) k)))"
  using assms
  by (auto simp: create_engine_def map_find_insert split: if_splits sum.splits)

lemma recover_loop_result:
  assumes "distinct diff" "recover_loop api diff s = (None, s')"
  shows "\<forall>k. (k \<notin> set diff \<longrightarrow> map_find (m_engines s') k = map_find (m_engines s) k) \<and>
             (k \<in> set diff \<and> map_find (m_engines s) k = None \<longrightarrow>
                (\<exists>e0 e1. engine_new api k = Inr e0 \<and> engine_start api e0 = Inr e1 \<and>
                   map_find (m_engines s') k = Some e1)) \<and>
             (k \<in> set diff \<longrightarrow> (\<forall>e. map_find (m_engines s) k = Some e \<longrightarrow>
                (\<exists>e'. engine_stop api e = Inr e' \<and> map_find (m_engines s') k = Some e')))"
  using assms
proof (induction diff arbitrary: s)
  case Nil
  then show ?case by simp
next
  case (Cons name rest)
  from Cons.prems(1) have dist: "distinct rest" and notin: "name \<notin> set rest" by simp_all
  show ?case
  proof (cases "map_find (m_engines s) name")
    case None
    with Cons.prems(2) obtain result s1 where
      c: "create_engine api name s = Inr (result, s1)" and r: "recover_loop api rest s1 = (None, s')"
      by (auto split: sum.splits)
    from create_engine_fresh [OF c] obtain e0 e1 where new: "engine_new api name = Inr e0"
      "engine_start api e0 = Inr e1"
      and f1: "\<And>k. map_find (m_engines s1) k = (if k = name then Some e1 else map_find (m_engines s) k)"
      by blast
    note ih = Cons.IH [OF dist r]
    show ?thesis
    proof (intro allI)
      fix k
      show "(k \<notin> set (name # rest) \<longrightarrow> map_find (m_engines s') k = map_find (m_engines s) k) \<and>
             (k \<in> set (name # rest) \<and> map_find (m_engines s) k = None \<longrightarrow>
                (\<exists>e0 e1. engine_new api k = Inr e0 \<and> engine_start api e0 = Inr e1 \<and>
                   map_find (m_engines s') k = Some e1)) \<and>
             (k \<in> set (name # rest) \<longrightarrow> (\<forall>e. map_find (m_engines s) k = Some e \<longrightarrow>
                (\<exists>e'. engine_stop api e = Inr e' \<and> map_find (m_engines s') k = Some e')))"
      proof (cases "k = name")
        case True
        with ih notin f1 have "map_find (m_engines s') k = Some e1" by simp
        with True None new show ?thesis by simp
      next
        case False
        with ih [rule_format, of k] f1 [of k] show ?thesis by simp
      qed
    qed
  next
    case (Some engine)
    with Cons.prems(2) obtain engine' where
      st: "engine_stop api engine = Inr engine'" and
      r: "recover_loop api rest (s\<lparr> m_engines := map_assign name engine' (m_engines s) \<rparr>) = (None, s')"
      by (auto split: sum.splits)
    define s1 where "s1 = s\<lparr> m_engines := map_assign name engine' (m_engines s) \<rparr>"
    have f1: "\<And>k. map_find (m_engines s1) k = (if k = name then Some engine' else map_find (m_engines s) k)"
      using Some by (simp add: s1_def map_find_assign)
    note ih = Cons.IH [OF dist r [folded s1_def]]
    show ?thesis
    proof (intro allI)
      fix k
      show "(k \<notin> set (name # rest) \<longrightarrow> map_find (m_engines s') k = map_find (m_engines s) k) \<and>
             (k \<in> set (name # rest) \<and> map_find (m_engines s) k = None \<longrightarrow>
                (\<exists>e0 e1. engine_new api k = Inr e0 \<and> engine_start api e0 = Inr e1 \<and>
                   map_find (m_engines s') k = Some e1)) \<and>
             (k \<in> set (name # rest) \<longrightarrow> (\<forall>e. map_find (m_engines s) k = Some e \<longrightarrow>
                (\<exists>e'. engine_stop api e = Inr e' \<and> map_find (m_engines s') k = Some e')))"
      proof (cases "k = name")
        case True
        with ih notin f1 have "map_find (m_engines s') k = Some engine'" by simp
        with True Some st show ?thesis by simp
      next
        case False
        with ih [rule_format, of k] f1 [of k] show ?thesis by simp
      qed
    qed
  qed
qed

lemma recover_loop_returns:
  assumes "\<forall>name. \<exists>e0 e1 i. engine_new api name = Inr e0 \<and> engine_start api e0 = Inr e1 \<and> engine_info api e1 = Inr i"
      and "\<forall>e. \<exists>e'. engine_stop api e = Inr e'"
  shows "\<exists>s'. recover_loop api diff s = (None, s')"
proof (induction diff arbitrary: s)
  case Nil
  show ?case by simp
next
  case (Cons name rest)
  show ?case
  proof (cases "map_find (m_engines s) name")
    case None
    from assms(1) obtain e0 e1 i where "engine_new api name = Inr e0" "engine_start api e0 = Inr e1"
      "engine_info api e1 = Inr i" by blast
    with None have "create_engine api name s = Inr (i, s\<lparr> m_engines := map_insert name e1 (m_engines s) \<rparr>)"
      by (simp add: create_engine_def)
    with None Cons.IH show ?thesis by simp
  next
    case (Some engine)
    from assms(2) obtain engine' where "engine_stop api engine = Inr engine'" by blast
    with Some Cons.IH show ?thesis by simp
  qed
qed

text \<open>
  C3. \<open>recover\<close> walks through the symmetric difference of the names listed in the storage and
  the names in \<open>m_engines\<close>. When it returns: for a name in the storage without an engine, an
  engine has been built, started and registered; for a name with an engine that the storage does not
  list, that engine has been stopped (it stays registered); an engine whose name the storage lists is
  as before; and no other name has got an engine. It does return when building, starting and
  stopping engines do not throw.
\<close>

theorem recover_symmetric_difference:
  assumes "storage ''apps'' = Inr apps" and "is_std_map (m_engines s)"
  shows "(\<forall>s'. recover api storage s = (None, s') \<longrightarrow>
           (\<forall>name.
              (name \<in> set apps \<and> map_find (m_engines s) name = None \<longrightarrow>
                 (\<exists>e0 e1. engine_new api name = Inr e0 \<and> engine_start api e0 = Inr e1 \<and>
                    map_find (m_engines s') name = Some e1)) \<and>
              (name \<notin> set apps \<longrightarrow> (\<forall>e. map_find (m_engines s) name = Some e \<longrightarrow>
                 (\<exists>e'. engine_stop api e = Inr e' \<and> map_find (m_engines s') name = Some e'))) \<and>
              (name \<in> set apps \<longrightarrow> (\<forall>e. map_find (m_engines s) name = Some e \<longrightarrow>
                 map_find (m_engines s') name = Some e)) \<and>
              (name \<notin> set apps \<and> map_find (m_engines s) name = None \<longrightarrow>
                 map_find (m_engines s') name = None))) \<and>
         ((\<forall>name. \<exists>e0 e1 i. engine_new api name = Inr e0 \<and> engine_start api e0 = Inr e1 \<and> engine_info api e1 = Inr i) \<and>
          (\<forall>e. \<exists>e'. engine_stop api e = Inr e') \<longrightarrow>
            (\<exists>s'. recover api storage s = (None, s')))"
proof -
  define diff where "diff = set_symmetric_difference (map fst (m_engines s)) (std_set apps)"
  have sd: "sorted_wrt (<) diff"
       "set diff = (set (map fst (m_engines s)) - set apps) \<union> (set apps - set (map fst (m_engines s)))"
    using set_symmetric_difference_props [of "map fst (m_engines s)" "std_set apps"] assms(2) std_set_props [of apps]
    by (simp_all add: diff_def is_std_map_def)
  then have dist: "distinct diff" by (simp add: strict_sorted_iff)
  have mem: "\<And>k. k \<in> set diff \<longleftrightarrow> (k \<in> set apps) \<noteq> (map_find (m_engines s) k \<noteq> None)"
    using sd(2) by (auto simp: map_find_None_iff)
  have rec: "recover api storage s = (if diff \<noteq> [] then recover_loop api diff s else (None, s))"
    using assms(1) by (simp add: recover_def diff_def Let_def)
  have rec': "recover api storage s = recover_loop api diff s"
    using rec by (cases diff) simp_all
  show ?thesis
  proof (intro conjI allI impI)
    fix s' name
    assume "recover api storage s = (None, s')"
    then have "recover_loop api diff s = (None, s')" using rec' by simp
    note res = recover_loop_result [OF dist this, rule_format, of name]
    {
      assume "name \<in> set apps \<and> map_find (m_engines s) name = None"
      with mem [of name] res show "\<exists>e0 e1. engine_new api name = Inr e0 \<and> engine_start api e0 = Inr e1 \<and>
                    map_find (m_engines s') name = Some e1" by simp
    }
    {
      fix e assume "name \<notin> set apps" "map_find (m_engines s) name = Some e"
      with mem [of name] res show "\<exists>e'. engine_stop api e = Inr e' \<and> map_find (m_engines s') name = Some e'"
        by simp
    }
    {
      fix e assume "name \<in> set apps" "map_find (m_engines s) name = Some e"
      with mem [of name] res show "map_find (m_engines s') name = Some e" by simp
    }
    {
      assume "name \<notin> set apps \<and> map_find (m_engines s) name = None"
      with mem [of name] res show "map_find (m_engines s') name = None" by simp
    }
  next
    assume "(\<forall>name. \<exists>e0 e1 i. engine_new api name = Inr e0 \<and> engine_start api e0 = Inr e1 \<and> engine_info api e1 = Inr i) \<and>
          (\<forall>e. \<exists>e'. engine_stop api e = Inr e')"
    then show "\<exists>s'. recover api storage s = (None, s')"
      using recover_loop_returns [of api diff s] rec' by simp
  qed
qed

text \<open>
  The storage lists \<open>a\<close> and \<open>b\<close>, the server runs \<open>b\<close> and \<open>z\<close>: \<open>a\<close> is created and started, \<open>z\<close> is stopped, \<open>b\<close> is left alone.
\<close>

theorem recover_symmetric_difference_witness:
  "demo_apps ''apps'' = Inr [''b'', ''a'', ''b''] \<and> is_std_map (m_engines demo_server) \<and>
   (\<forall>e. \<exists>e'. engine_stop demo_engines e = Inr e') \<and>
   recover demo_engines demo_apps demo_server =
     (None, \<lparr> m_engines = [(''a'', (''a'', True)), (''b'', (''b'', True)), (''z'', (''z'', False))] \<rparr>) \<and>
   ''a'' \<in> set [''b'', ''a'', ''b''] \<and> map_find (m_engines demo_server) ''a'' = None \<and>
   ''z'' \<notin> set [''b'', ''a'', ''b''] \<and> map_find (m_engines demo_server) ''z'' = Some (''z'', True)"
  using recover_symmetric_difference [of demo_apps "[''b'', ''a'', ''b'']" demo_server demo_engines]
  by (auto simp: demo_apps_def demo_server_def demo_engines_def is_std_map_def recover_def std_set_def
        set_insert_def create_engine_def map_find_def map_insert_def map_assign_def Let_def)

section \<open>manifest_t: loading and configuration\<close>

subsection \<open>Sequencing\<close>

lemma and_then_Inr: "and_then r f = Inr y \<longleftrightarrow> (\<exists>x. r = Inr x \<and> f x = Inr y)"
  by (cases r) (simp_all add: and_then_def)

lemma and_then_Inl: "and_then r f = Inl e \<longleftrightarrow> r = Inl e \<or> (\<exists>x. r = Inr x \<and> f x = Inl e)"
  by (cases r) (simp_all add: and_then_def)

lemma and_then_simps: "and_then (Inr x) f = f x" "and_then (Inl e) f = Inl e"
  by (simp_all add: and_then_def)

subsection \<open>The effects of deploy and load\<close>

lemma emit_fields:
  "cache (emit e w) = cache w" "core (emit e w) = core w" "spool (emit e w) = spool w"
  "remove_error (emit e w) = remove_error w" "archive_error (emit e w) = archive_error w"
  "trace (emit e w) = trace w @ [e]"
  by (simp_all add: emit_def)

lemma deploy_ok:
  assumes "documents (core w) (''manifests'', name) = Inr doc"
      and "blobs (core w) (''apps'', name) = Inr blob"
      and "remove_error w (path_append (spool_path ctx) name) = None"
      and "archive_error w blob = None"
      and "assign_member doc ''path'' (stringValue (path_append (spool_path ctx) name)) = Inr doc'"
  shows "deploy ctx name w =
           (Inr (doc', path_append (spool_path ctx) name),
            w\<lparr> spool := (spool w)(path_append (spool_path ctx) name \<mapsto> blob),
               trace := trace w @
                 [CoreGet ''manifests'' name, CoreGet ''apps'' name,
                  Log info (''deploying the app to '' @ [CHR 0x27] @ path_append (spool_path ctx) name @ [CHR 0x27]),
                  RemoveAll (path_append (spool_path ctx) name),
                  ArchiveDeploy (path_append (spool_path ctx) name) blob] \<rparr>)"
  using assms by (simp add: deploy_def emit_def Let_def)

lemma deploy_frame:
  "cache (snd (deploy ctx name w)) = cache w \<and> core (snd (deploy ctx name w)) = core w \<and>
   (\<exists>es. trace (snd (deploy ctx name w)) = trace w @ es)"
  by (simp add: deploy_def emit_def Let_def split: sum.splits option.splits)

lemma load_hit:
  assumes "documents (cache w) (''manifests'', name) = Inr doc"
  shows "load ctx name w =
           (and_then (subscript doc ''path'') (\<lambda>(v, doc'). and_then (asString v) (\<lambda>path. Inr (doc', path))),
            emit (CacheGet ''manifests'' name) w)"
  using assms by (simp add: load_def emit_fields Let_def)

lemma ctor_hit:
  assumes "documents (cache w) (''manifests'', name) = Inr doc"
  shows "manifest_t_ctor ctx name w = (manifest_of_document ctx name doc, emit (CacheGet ''manifests'' name) w)"
proof (cases "subscript doc ''path''")
  case (Inl e)
  then show ?thesis
    by (simp add: manifest_t_ctor_def load_hit [OF assms] manifest_of_document_def and_then_simps)
next
  case (Inr vd)
  obtain v doc' where vd: "vd = (v, doc')" by (cases vd)
  show ?thesis
    by (cases "asString v")
       (simp_all add: manifest_t_ctor_def load_hit [OF assms] manifest_of_document_def and_then_simps Inr vd)
qed

lemma load_first_effect:
  "\<exists>es. trace (snd (load ctx name w)) = trace w @ CacheGet ''manifests'' name # es"
proof (cases "documents (cache w) (''manifests'', name)")
  case (Inr doc)
  then show ?thesis by (simp add: load_hit emit_fields)
next
  case (Inl m)
  define w2 where "w2 = emit (Log info ''the manifest hasn't been found in the cache'') (emit (CacheGet ''manifests'' name) w)"
  obtain r w3 where d: "deploy ctx name w2 = (r, w3)" by (cases "deploy ctx name w2")
  from deploy_frame [of ctx name w2] d obtain es where es: "trace w3 = trace w2 @ es" by auto
  have t2: "trace w2 = trace w @ [CacheGet ''manifests'' name, Log info ''the manifest hasn't been found in the cache'']"
    by (simp add: w2_def emit_fields)
  have "\<exists>es'. trace (snd (load ctx name w)) = trace w3 @ es'"
    using Inl d
    by (auto simp: load_def Let_def emit_fields w2_def split: sum.splits prod.splits)
  with es t2 show ?thesis by auto
qed

lemma ctor_trace: "trace (snd (manifest_t_ctor ctx name w)) = trace (snd (load ctx name w))"
  by (simp add: manifest_t_ctor_def split: prod.splits sum.splits)

lemma load_miss_ok:
  assumes "documents (cache w) (''manifests'', name) = Inl m"
      and "documents (core w) (''manifests'', name) = Inr doc"
      and "blobs (core w) (''apps'', name) = Inr blob"
      and "remove_error w (path_append (spool_path ctx) name) = None"
      and "archive_error w blob = None"
      and "assign_member doc ''path'' (stringValue (path_append (spool_path ctx) name)) = Inr doc'"
  shows "load ctx name w =
           (case storage_put (cache w) (''manifests'', name) doc' of
              Inl m' \<Rightarrow>
                (Inl (not_available name),
                 w\<lparr> spool := (spool w)(path_append (spool_path ctx) name \<mapsto> blob),
                    trace := trace w @
                      [CacheGet ''manifests'' name,
                       Log info ''the manifest hasn't been found in the cache'',
                       CoreGet ''manifests'' name, CoreGet ''apps'' name,
                       Log info (''deploying the app to '' @ [CHR 0x27] @ path_append (spool_path ctx) name @ [CHR 0x27]),
                       RemoveAll (path_append (spool_path ctx) name),
                       ArchiveDeploy (path_append (spool_path ctx) name) blob,
                       CachePut ''manifests'' name doc',
                       Log warning (''unable to cache the manifest - '' @ m')] \<rparr>)
            | Inr cache' \<Rightarrow>
                (Inr (doc', path_append (spool_path ctx) name),
                 w\<lparr> cache := cache',
                    spool := (spool w)(path_append (spool_path ctx) name \<mapsto> blob),
                    trace := trace w @
                      [CacheGet ''manifests'' name,
                       Log info ''the manifest hasn't been found in the cache'',
                       CoreGet ''manifests'' name, CoreGet ''apps'' name,
                       Log info (''deploying the app to '' @ [CHR 0x27] @ path_append (spool_path ctx) name @ [CHR 0x27]),
                       RemoveAll (path_append (spool_path ctx) name),
                       ArchiveDeploy (path_append (spool_path ctx) name) blob,
                       CachePut ''manifests'' name doc'] \<rparr>))"
proof -
  define w2 where "w2 = emit (Log info ''the manifest hasn't been found in the cache'') (emit (CacheGet ''manifests'' name) w)"
  have "deploy ctx name w2 =
           (Inr (doc', path_append (spool_path ctx) name),
            w2\<lparr> spool := (spool w2)(path_append (spool_path ctx) name \<mapsto> blob),
               trace := trace w2 @
                 [CoreGet ''manifests'' name, CoreGet ''apps'' name,
                  Log info (''deploying the app to '' @ [CHR 0x27] @ path_append (spool_path ctx) name @ [CHR 0x27]),
                  RemoveAll (path_append (spool_path ctx) name),
                  ArchiveDeploy (path_append (spool_path ctx) name) blob] \<rparr>)"
    using assms by (intro deploy_ok) (simp_all add: w2_def emit_fields)
  then show ?thesis
    using assms(1)
    by (simp add: load_def Let_def w2_def emit_def split: sum.splits)
qed

lemma configure_fields:
  "configure ctx name doc p = Inr m \<Longrightarrow> manifest_path m = p \<and> manifest_name m = name"
  by (auto simp: configure_def and_then_Inr)

lemma lookup_assign_member:
  "assign_member doc key v = Inr doc' \<Longrightarrow> lookup doc' key = Some v"
proof (cases doc)
  case (objectValue ms)
  assume a: "assign_member doc key v = Inr doc'"
  show ?thesis
  proof (cases "map_find ms key")
    case None
    with a objectValue show ?thesis by (auto simp: map_find_insert)
  next
    case (Some old)
    with a objectValue show ?thesis by (auto simp: map_find_assign)
  qed
qed (auto simp: map_find_def)

text \<open>
  C1, as the code has it. On a cache miss, when the deploy from the core storage succeeds and the write
  of the manifest into the cache throws a \<open>storage_error_t\<close>, the constructor logs a warning with the
  message of that exception and then throws \<open>configuration_error_t\<close>, the app being "not available":
  no manifest is returned, although the app has been unpacked into the spool.
\<close>

theorem cache_write_failure_is_fatal:
  assumes "documents (cache w) (''manifests'', name) = Inl m"
      and "documents (core w) (''manifests'', name) = Inr doc"
      and "blobs (core w) (''apps'', name) = Inr blob"
      and "remove_error w (path_append (spool_path ctx) name) = None"
      and "archive_error w blob = None"
      and "assign_member doc ''path'' (stringValue (path_append (spool_path ctx) name)) = Inr doc'"
      and "put_error (cache w) (''manifests'', name) = Some m'"
  shows "fst (manifest_t_ctor ctx name w) =
           Inl (configuration_error_t (''the '' @ [CHR 0x27] @ name @ [CHR 0x27] @ '' app is not available'')) \<and>
         last (trace (snd (manifest_t_ctor ctx name w))) = Log warning (''unable to cache the manifest - '' @ m') \<and>
         spool (snd (manifest_t_ctor ctx name w)) (path_append (spool_path ctx) name) = Some blob"
  using assms(7)
  by (simp add: manifest_t_ctor_def load_miss_ok [OF assms(1-6)] storage_put_def not_available_def)

text \<open>
  A cache that refuses every write, and an app that the core storage holds.
\<close>

theorem cache_write_failure_is_fatal_witness:
  "documents (cache demo_readonly_world) (''manifests'', ''echo'') = Inl ''the specified object has not been found'' \<and>
   blobs (core demo_readonly_world) (''apps'', ''echo'') = Inr ''archive-bytes'' \<and>
   put_error (cache demo_readonly_world) (''manifests'', ''echo'') = Some ''read-only storage'' \<and>
   fst (manifest_t_ctor demo_context ''echo'' demo_readonly_world) =
     Inl (configuration_error_t (''the '' @ [CHR 0x27] @ ''echo'' @ [CHR 0x27] @ '' app is not available'')) \<and>
   last (trace (snd (manifest_t_ctor demo_context ''echo'' demo_readonly_world))) =
     Log warning ''unable to cache the manifest - read-only storage''"
  using cache_write_failure_is_fatal [of demo_readonly_world "''echo''" "''the specified object has not been found''"
      "objectValue [(''engine'', objectValue [(''pool-limit'', uintValue 4)]), (''type'', stringValue ''python'')]"
      "''archive-bytes''" demo_context
      "objectValue [(''engine'', objectValue [(''pool-limit'', uintValue 4)]),
                    (''path'', stringValue ''/var/spool/cocaine/echo''), (''type'', stringValue ''python'')]"
      "''read-only storage''"]
  by (simp add: demo_readonly_world_def demo_world_def demo_core_def empty_storage_def demo_context_def
        path_append_def map_find_def map_insert_def)

text \<open>
  C1 as stated fails: in this world the cache misses, \<open>deploy\<close> returns the root and the path, the
  write into the cache fails, and the constructor returns no manifest but a configuration error.
\<close>

theorem cache_write_failure_counterexample:
  "documents (cache demo_readonly_world) (''manifests'', ''echo'') = Inl ''the specified object has not been found'' \<and>
   fst (deploy demo_context ''echo'' demo_readonly_world) =
     Inr (objectValue [(''engine'', objectValue [(''pool-limit'', uintValue 4)]),
                       (''path'', stringValue ''/var/spool/cocaine/echo''), (''type'', stringValue ''python'')],
          ''/var/spool/cocaine/echo'') \<and>
   put_error (cache demo_readonly_world) (''manifests'', ''echo'') = Some ''read-only storage'' \<and>
   spool (snd (manifest_t_ctor demo_context ''echo'' demo_readonly_world)) ''/var/spool/cocaine/echo'' = Some ''archive-bytes'' \<and>
   fst (manifest_t_ctor demo_context ''echo'' demo_readonly_world) =
     Inl (configuration_error_t (''the '' @ [CHR 0x27] @ ''echo'' @ [CHR 0x27] @ '' app is not available''))"
  by (simp add: demo_readonly_world_def demo_world_def demo_core_def empty_storage_def demo_context_def
        manifest_t_ctor_def load_def deploy_def storage_put_def emit_def path_append_def not_available_def
        map_find_def map_insert_def Let_def)

text \<open>
  C2. Whatever the name and the world, the first thing the constructor does is to read
  \<open>(manifests, name)\<close> from the cache. On a miss, when the core storage has the manifest and the archive
  and nothing fails, it reads \<open>(manifests, name)\<close> and then \<open>(apps, name)\<close> from the core storage,
  removes the directory \<open>spool_path / name\<close>, deploys the archive into it, and puts the root, with
  that path as its member \<open>path\<close>, into the cache, in this order and with no other effect than log
  records; the path of a manifest it returns is \<open>spool_path / name\<close>.
\<close>

theorem manifest_load_algorithm:
  "(\<exists>es. trace (snd (manifest_t_ctor ctx name w)) = trace w @ CacheGet ''manifests'' name # es) \<and>
   (documents (cache w) (''manifests'', name) = Inl m \<and>
    documents (core w) (''manifests'', name) = Inr doc \<and>
    blobs (core w) (''apps'', name) = Inr blob \<and>
    remove_error w (path_append (spool_path ctx) name) = None \<and>
    archive_error w blob = None \<and>
    assign_member doc ''path'' (stringValue (path_append (spool_path ctx) name)) = Inr doc' \<and>
    put_error (cache w) (''manifests'', name) = None \<longrightarrow>
      filter (\<lambda>e. \<not> is_log e) (drop (length (trace w)) (trace (snd (manifest_t_ctor ctx name w)))) =
        [CacheGet ''manifests'' name, CoreGet ''manifests'' name, CoreGet ''apps'' name,
         RemoveAll (path_append (spool_path ctx) name),
         ArchiveDeploy (path_append (spool_path ctx) name) blob,
         CachePut ''manifests'' name doc'] \<and>
      spool (snd (manifest_t_ctor ctx name w)) (path_append (spool_path ctx) name) = Some blob \<and>
      lookup doc' ''path'' = Some (stringValue (path_append (spool_path ctx) name)) \<and>
      documents (cache (snd (manifest_t_ctor ctx name w))) (''manifests'', name) = Inr doc' \<and>
      (\<forall>mf. fst (manifest_t_ctor ctx name w) = Inr mf \<longrightarrow>
         manifest_path mf = path_append (spool_path ctx) name))"
proof (intro conjI impI)
  show "\<exists>es. trace (snd (manifest_t_ctor ctx name w)) = trace w @ CacheGet ''manifests'' name # es"
    using load_first_effect [of ctx name w] by (simp add: ctor_trace)
next
  assume h: "documents (cache w) (''manifests'', name) = Inl m \<and>
    documents (core w) (''manifests'', name) = Inr doc \<and>
    blobs (core w) (''apps'', name) = Inr blob \<and>
    remove_error w (path_append (spool_path ctx) name) = None \<and>
    archive_error w blob = None \<and>
    assign_member doc ''path'' (stringValue (path_append (spool_path ctx) name)) = Inr doc' \<and>
    put_error (cache w) (''manifests'', name) = None"
  then have ld: "load ctx name w =
      (Inr (doc', path_append (spool_path ctx) name),
       w\<lparr> cache := (cache w)\<lparr> documents := (documents (cache w))((''manifests'', name) := Inr doc') \<rparr>,
          spool := (spool w)(path_append (spool_path ctx) name \<mapsto> blob),
          trace := trace w @
            [CacheGet ''manifests'' name,
             Log info ''the manifest hasn't been found in the cache'',
             CoreGet ''manifests'' name, CoreGet ''apps'' name,
             Log info (''deploying the app to '' @ [CHR 0x27] @ path_append (spool_path ctx) name @ [CHR 0x27]),
             RemoveAll (path_append (spool_path ctx) name),
             ArchiveDeploy (path_append (spool_path ctx) name) blob,
             CachePut ''manifests'' name doc'] \<rparr>)"
    using load_miss_ok [of w name m doc blob ctx doc'] by (simp add: storage_put_def)
  have snd_ctor: "snd (manifest_t_ctor ctx name w) = snd (load ctx name w)"
    by (simp add: manifest_t_ctor_def split: prod.splits sum.splits)
  show "filter (\<lambda>e. \<not> is_log e) (drop (length (trace w)) (trace (snd (manifest_t_ctor ctx name w)))) =
        [CacheGet ''manifests'' name, CoreGet ''manifests'' name, CoreGet ''apps'' name,
         RemoveAll (path_append (spool_path ctx) name),
         ArchiveDeploy (path_append (spool_path ctx) name) blob,
         CachePut ''manifests'' name doc']"
    by (simp add: snd_ctor ld)
  show "spool (snd (manifest_t_ctor ctx name w)) (path_append (spool_path ctx) name) = Some blob"
    by (simp add: snd_ctor ld)
  show "lookup doc' ''path'' = Some (stringValue (path_append (spool_path ctx) name))"
    using h by (intro lookup_assign_member [of doc]) simp
  show "documents (cache (snd (manifest_t_ctor ctx name w))) (''manifests'', name) = Inr doc'"
    by (simp add: snd_ctor ld)
  show "\<forall>mf. fst (manifest_t_ctor ctx name w) = Inr mf \<longrightarrow>
         manifest_path mf = path_append (spool_path ctx) name"
    using configure_fields [of ctx name doc' "path_append (spool_path ctx) name"]
    by (simp add: manifest_t_ctor_def ld)
qed

text \<open>
  The app \<open>echo\<close>, which the core storage holds and the cache does not.
\<close>

theorem manifest_load_algorithm_witness:
  "documents (cache demo_world) (''manifests'', ''echo'') = Inl ''the specified object has not been found'' \<and>
   blobs (core demo_world) (''apps'', ''echo'') = Inr ''archive-bytes'' \<and>
   put_error (cache demo_world) (''manifests'', ''echo'') = None \<and>
   path_append (spool_path demo_context) ''echo'' = ''/var/spool/cocaine/echo'' \<and>
   filter (\<lambda>e. \<not> is_log e) (trace (snd (manifest_t_ctor demo_context ''echo'' demo_world))) =
     [CacheGet ''manifests'' ''echo'', CoreGet ''manifests'' ''echo'', CoreGet ''apps'' ''echo'',
      RemoveAll ''/var/spool/cocaine/echo'', ArchiveDeploy ''/var/spool/cocaine/echo'' ''archive-bytes'',
      CachePut ''manifests'' ''echo''
        (objectValue [(''engine'', objectValue [(''pool-limit'', uintValue 4)]),
                      (''path'', stringValue ''/var/spool/cocaine/echo''), (''type'', stringValue ''python'')])] \<and>
   (\<exists>mf. fst (manifest_t_ctor demo_context ''echo'' demo_world) = Inr mf \<and>
         manifest_path mf = ''/var/spool/cocaine/echo'')"
  using manifest_load_algorithm [of demo_context "''echo''" demo_world "''the specified object has not been found''"
      "objectValue [(''engine'', objectValue [(''pool-limit'', uintValue 4)]), (''type'', stringValue ''python'')]"
      "''archive-bytes''"
      "objectValue [(''engine'', objectValue [(''pool-limit'', uintValue 4)]),
                    (''path'', stringValue ''/var/spool/cocaine/echo''), (''type'', stringValue ''python'')]"]
  by (simp add: demo_world_def demo_core_def empty_storage_def demo_context_def demo_time_field_def
        manifest_t_ctor_def load_def deploy_def storage_put_def emit_def path_append_def
        configure_def engine_policy_def engine_timeouts_def engine_limits_def read_double_def read_uint_def read_string_def and_then_def
        map_find_def map_insert_def Let_def)

subsection \<open>JSON objects\<close>

lemma subscript_Inr:
  assumes "subscript d key = Inr (v, d')"
  shows "lookup d' key = Some v"
    and "\<And>k. k \<noteq> key \<Longrightarrow> lookup d' k = lookup d k"
    and "v = (case lookup d key of Some x \<Rightarrow> x | None \<Rightarrow> nullValue)"
proof -
  have "lookup d' key = Some v \<and> (\<forall>k. k \<noteq> key \<longrightarrow> lookup d' k = lookup d k) \<and>
        v = (case lookup d key of Some x \<Rightarrow> x | None \<Rightarrow> nullValue)"
  proof (cases d)
    case nullValue
    with assms show ?thesis by (auto simp: map_find_def)
  next
    case (objectValue ms)
    show ?thesis
    proof (cases "map_find ms key")
      case None
      with assms objectValue show ?thesis by (auto simp: map_find_insert)
    next
      case (Some x)
      with assms objectValue show ?thesis by auto
    qed
  qed (use assms in auto)
  then show "lookup d' key = Some v"
    and "\<And>k. k \<noteq> key \<Longrightarrow> lookup d' k = lookup d k"
    and "v = (case lookup d key of Some x \<Rightarrow> x | None \<Rightarrow> nullValue)"
    by simp_all
qed

lemma subscript_present: "lookup d key = Some v \<Longrightarrow> subscript d key = Inr (v, d)"
  by (cases d) simp_all

lemma assign_member_Inr:
  assumes "assign_member d key v = Inr d'"
  shows "lookup d' key = Some v" and "\<And>k. k \<noteq> key \<Longrightarrow> lookup d' k = lookup d k"
proof -
  have "lookup d' key = Some v \<and> (\<forall>k. k \<noteq> key \<longrightarrow> lookup d' k = lookup d k)"
  proof (cases d)
    case nullValue
    with assms show ?thesis by (auto simp: map_find_def)
  next
    case (objectValue ms)
    show ?thesis
    proof (cases "map_find ms key")
      case None
      with assms objectValue show ?thesis by (auto simp: map_find_insert)
    next
      case (Some x)
      with assms objectValue show ?thesis by (auto simp: map_find_assign)
    qed
  qed (use assms in auto)
  then show "lookup d' key = Some v" and "\<And>k. k \<noteq> key \<Longrightarrow> lookup d' k = lookup d k"
    by simp_all
qed

text \<open>A value with members: null or an object.\<close>

lemma get_lookup:
  "get e key d = Inr x \<Longrightarrow> x = (case lookup e key of Some v \<Rightarrow> v | None \<Rightarrow> d)"
  by (cases e) (auto split: option.splits)

lemma get_cong:
  assumes "get e key d = Inr x" "assign_member e key' v = Inr e'" "key \<noteq> key'"
  shows "get e' key d = Inr x"
proof -
  from assms(2) obtain ms' where e': "e' = objectValue ms'" by (cases e) (auto split: option.splits)
  from assign_member_Inr(2) [OF assms(2), of key] assms(3) have "lookup e' key = lookup e key" by simp
  with get_lookup [OF assms(1)] e' show ?thesis by (auto split: option.splits)
qed

lemma get_assigned:
  assumes "assign_member e key v = Inr e'"
  shows "get e' key d = Inr v"
proof -
  from assms obtain ms' where e': "e' = objectValue ms'" by (cases e) (auto split: option.splits)
  with assign_member_Inr(1) [OF assms] show ?thesis by simp
qed

lemma get_omitted:
  assumes "lookup e key = None" "get e key d = Inr x"
  shows "x = d" "get e key d' = Inr d'"
  using assms by (cases e; simp)+

lemma read_assign_other:
  assumes "assign_member e key' v = Inr e'" "key \<noteq> key'"
  shows "read_double e key d = Inr x \<Longrightarrow> read_double e' key d = Inr x"
    and "read_uint e key n = Inr y \<Longrightarrow> read_uint e' key n = Inr y"
    and "read_string e key s = Inr z \<Longrightarrow> read_string e' key s = Inr z"
  using get_cong [OF _ assms]
  by (auto simp: read_double_def read_uint_def read_string_def and_then_Inr)

subsection \<open>The configuration part of the constructor\<close>

lemma configure_type_fails: "doc_type doc = Inl e \<Longrightarrow> configure ctx name doc p = Inl e"
  by (auto simp: doc_type_def configure_def and_then_Inl and_then_Inr split: prod.splits)

lemma configure_unfold:
  assumes "doc_type doc = Inr t"
  obtains d2 tv where
    "configure ctx name doc p =
       and_then (engine_policy ctx (doc_engine doc)) (\<lambda>pol.
       and_then (read_string (doc_engine doc) ''slave'' (default_slave ctx)) (\<lambda>s.
       Inr \<lparr> manifest_name = name, manifest_root = d2, manifest_path = p,
             manifest_type = t, policy = pol, slave = s \<rparr>))"
    "lookup d2 ''type'' = Some tv" "asString tv = Inr t" "lookup d2 ''engine'' = Some (doc_engine doc)"
    "\<And>k. k \<noteq> ''type'' \<Longrightarrow> k \<noteq> ''engine'' \<Longrightarrow> lookup d2 k = lookup doc k"
proof -
  from assms obtain tv d1 where s1: "subscript doc ''type'' = Inr (tv, d1)" and tv: "asString tv = Inr t"
    by (auto simp: doc_type_def and_then_Inr)
  note p1 = subscript_Inr [OF s1]
  from p1(1) obtain ms where d1: "d1 = objectValue ms" by (cases d1) simp_all
  obtain ev d2 where s2: "subscript d1 ''engine'' = Inr (ev, d2)"
    by (cases "map_find ms ''engine''") (simp_all add: d1)
  note p2 = subscript_Inr [OF s2]
  have "lookup d1 ''engine'' = lookup doc ''engine''" using p1(2) [of "''engine''"] by simp
  with p2(3) have ev: "ev = doc_engine doc" by (simp add: doc_engine_def)
  have c: "configure ctx name doc p =
       and_then (engine_policy ctx (doc_engine doc)) (\<lambda>pol.
       and_then (read_string (doc_engine doc) ''slave'' (default_slave ctx)) (\<lambda>s.
       Inr \<lparr> manifest_name = name, manifest_root = d2, manifest_path = p,
             manifest_type = t, policy = pol, slave = s \<rparr>))"
    by (simp add: configure_def s1 tv s2 ev and_then_simps)
  have l1: "lookup d2 ''type'' = Some tv" using p2(2) [of "''type''"] p1(1) by simp
  have l2: "lookup d2 ''engine'' = Some (doc_engine doc)" using p2(1) ev by simp
  have l3: "\<And>k. k \<noteq> ''type'' \<Longrightarrow> k \<noteq> ''engine'' \<Longrightarrow> lookup d2 k = lookup doc k"
    using p1(2) p2(2) by simp
  from c l1 tv l2 l3 show ?thesis by (rule that)
qed

lemma configure_policy:
  assumes "configure ctx name doc p = Inr m"
  shows "engine_policy ctx (doc_engine doc) = Inr (policy m)"
proof (cases "doc_type doc")
  case (Inl e)
  with assms configure_type_fails [OF Inl, of ctx name p] show ?thesis by simp
next
  case (Inr t)
  then obtain d2 where "configure ctx name doc p =
       and_then (engine_policy ctx (doc_engine doc)) (\<lambda>pol.
       and_then (read_string (doc_engine doc) ''slave'' (default_slave ctx)) (\<lambda>s.
       Inr \<lparr> manifest_name = name, manifest_root = d2, manifest_path = p,
             manifest_type = t, policy = pol, slave = s \<rparr>))"
    by (rule configure_unfold)
  with assms show ?thesis by (auto simp: and_then_Inr)
qed

lemma configure_policy_fails_typed:
  assumes "engine_policy ctx (doc_engine doc) = Inl e" "doc_type doc = Inr t"
  shows "configure ctx name doc p = Inl e"
proof -
  from assms(2) obtain d2 where "configure ctx name doc p =
       and_then (engine_policy ctx (doc_engine doc)) (\<lambda>pol.
       and_then (read_string (doc_engine doc) ''slave'' (default_slave ctx)) (\<lambda>s.
       Inr \<lparr> manifest_name = name, manifest_root = d2, manifest_path = p,
             manifest_type = t, policy = pol, slave = s \<rparr>))"
    by (rule configure_unfold)
  with assms(1) show ?thesis by (simp add: and_then_simps)
qed

lemma configure_policy_fails:
  assumes "engine_policy ctx (doc_engine doc) = Inl e"
  shows "\<exists>e'. configure ctx name doc p = Inl e'"
proof (cases "doc_type doc")
  case (Inl e0)
  then show ?thesis using configure_type_fails by blast
next
  case (Inr t)
  then show ?thesis using configure_policy_fails_typed [OF assms] by blast
qed

lemma ctor_configure:
  "fst (load ctx name w) = Inr (doc, p) \<Longrightarrow> fst (manifest_t_ctor ctx name w) = configure ctx name doc p"
  by (cases "load ctx name w") (auto simp: manifest_t_ctor_def)

lemma ctor_Inr:
  assumes "fst (manifest_t_ctor ctx name w) = Inr m"
  obtains doc p where "fst (load ctx name w) = Inr (doc, p)" "configure ctx name doc p = Inr m"
  using assms by (cases "load ctx name w") (auto simp: manifest_t_ctor_def split: sum.splits)

lemma engine_policy_Inr:
  "engine_policy ctx e = Inr pol \<longleftrightarrow>
     engine_timeouts ctx e = Inr (startup_timeout pol, heartbeat_timeout pol, idle_timeout pol, termination_timeout pol) \<and>
     engine_limits ctx e = Inr (pool_limit pol, queue_limit pol, grow_threshold pol)"
  by (cases pol) (auto simp: engine_policy_def and_then_Inr)

lemma engine_policy_Inl:
  "engine_policy ctx e = Inl x \<longleftrightarrow>
     engine_timeouts ctx e = Inl x \<or> ((\<exists>ts. engine_timeouts ctx e = Inr ts) \<and> engine_limits ctx e = Inl x)"
  by (auto simp: engine_policy_def and_then_Inl split: prod.splits)




lemma engine_limits_Inr:
  "engine_limits ctx e = Inr (pool, queue, grow) \<longleftrightarrow>
     read_uint e ''pool-limit'' (default_pool_limit ctx mod 2 ^ 32) = Inr pool \<and> pool \<noteq> 0 \<and>
     read_uint e ''queue-limit'' (default_queue_limit ctx mod 2 ^ 32) = Inr queue \<and>
     read_uint e ''grow-threshold'' (unat (queue div pool)) = Inr grow \<and> grow \<noteq> 0"
proof
  assume "engine_limits ctx e = Inr (pool, queue, grow)"
  then show "read_uint e ''pool-limit'' (default_pool_limit ctx mod 2 ^ 32) = Inr pool \<and> pool \<noteq> 0 \<and>
     read_uint e ''queue-limit'' (default_queue_limit ctx mod 2 ^ 32) = Inr queue \<and>
     read_uint e ''grow-threshold'' (unat (queue div pool)) = Inr grow \<and> grow \<noteq> 0"
    by (auto simp: engine_limits_def and_then_Inr split: if_splits)
next
  assume "read_uint e ''pool-limit'' (default_pool_limit ctx mod 2 ^ 32) = Inr pool \<and> pool \<noteq> 0 \<and>
     read_uint e ''queue-limit'' (default_queue_limit ctx mod 2 ^ 32) = Inr queue \<and>
     read_uint e ''grow-threshold'' (unat (queue div pool)) = Inr grow \<and> grow \<noteq> 0"
  then show "engine_limits ctx e = Inr (pool, queue, grow)"
    by (simp add: engine_limits_def and_then_simps)
qed

lemma word_ge_1: "1 \<le> (x :: 32 word) \<longleftrightarrow> x \<noteq> 0"
  by (simp add: word_le_nat_alt unat_eq_0 [symmetric] Suc_le_eq)

lemmas eval_defs = demo_world_def demo_core_def empty_storage_def demo_context_def demo_time_field_def cached_world_def
  manifest_t_ctor_def load_def deploy_def storage_put_def emit_def path_append_def not_available_def
  configure_def engine_policy_def engine_timeouts_def engine_limits_def
  read_double_def read_uint_def read_string_def and_then_def doc_type_def doc_engine_def
  map_find_def map_insert_def map_assign_def Let_def

text \<open>
  C5. A manifest that the constructor returns has a pool limit and a grow threshold of at least 1.
  The check of the pool limit throws \<open>configuration_error_t\<close> when the pool limit reads as 0, and the
  check of the grow threshold does when the grow threshold, given or by default, reads as 0. A
  document whose engine section fails one of these checks never gives a manifest, and the
  constructor throws that configuration error whenever it gets as far as the limits.
\<close>

theorem policy_limits_positive:
  "(fst (manifest_t_ctor ctx name w) = Inr m \<longrightarrow>
      1 \<le> pool_limit (policy m) \<and> 1 \<le> grow_threshold (policy m)) \<and>
   (read_uint engine ''pool-limit'' (default_pool_limit ctx mod 2 ^ 32) = Inr 0 \<longrightarrow>
      engine_limits ctx engine = Inl (configuration_error_t ''engine pool limit must be positive'')) \<and>
   (read_uint engine' ''pool-limit'' (default_pool_limit ctx mod 2 ^ 32) = Inr pool \<and> pool \<noteq> 0 \<and>
    read_uint engine' ''queue-limit'' (default_queue_limit ctx mod 2 ^ 32) = Inr queue \<and>
    read_uint engine' ''grow-threshold'' (unat (queue div pool)) = Inr 0 \<longrightarrow>
      engine_limits ctx engine' = Inl (configuration_error_t ''engine grow threshold must be positive'')) \<and>
   (fst (load ctx name' w') = Inr (doc, p) \<and> engine_limits ctx (doc_engine doc) = Inl e \<longrightarrow>
      (\<exists>e'. fst (manifest_t_ctor ctx name' w') = Inl e') \<and>
      (\<forall>t ts. doc_type doc = Inr t \<and> engine_timeouts ctx (doc_engine doc) = Inr ts \<longrightarrow>
         fst (manifest_t_ctor ctx name' w') = Inl e))"
proof (intro conjI impI allI)
  assume "fst (manifest_t_ctor ctx name w) = Inr m"
  then obtain d q where "configure ctx name d q = Inr m" by (rule ctor_Inr)
  then have "engine_policy ctx (doc_engine d) = Inr (policy m)" by (rule configure_policy)
  then have "engine_limits ctx (doc_engine d) = Inr (pool_limit (policy m), queue_limit (policy m), grow_threshold (policy m))"
    by (simp add: engine_policy_Inr)
  then have "pool_limit (policy m) \<noteq> 0 \<and> grow_threshold (policy m) \<noteq> 0"
    by (simp add: engine_limits_Inr)
  then show "1 \<le> pool_limit (policy m)" "1 \<le> grow_threshold (policy m)"
    by (simp_all add: word_ge_1)
next
  assume "read_uint engine ''pool-limit'' (default_pool_limit ctx mod 2 ^ 32) = Inr 0"
  then show "engine_limits ctx engine = Inl (configuration_error_t ''engine pool limit must be positive'')"
    by (simp add: engine_limits_def and_then_simps)
next
  assume "read_uint engine' ''pool-limit'' (default_pool_limit ctx mod 2 ^ 32) = Inr pool \<and> pool \<noteq> 0 \<and>
    read_uint engine' ''queue-limit'' (default_queue_limit ctx mod 2 ^ 32) = Inr queue \<and>
    read_uint engine' ''grow-threshold'' (unat (queue div pool)) = Inr 0"
  then show "engine_limits ctx engine' = Inl (configuration_error_t ''engine grow threshold must be positive'')"
    by (simp add: engine_limits_def and_then_simps)
next
  assume h: "fst (load ctx name' w') = Inr (doc, p) \<and> engine_limits ctx (doc_engine doc) = Inl e"
  then have c: "fst (manifest_t_ctor ctx name' w') = configure ctx name' doc p"
    by (simp add: ctor_configure)
  from h have "\<exists>x. engine_policy ctx (doc_engine doc) = Inl x"
    by (cases "engine_timeouts ctx (doc_engine doc)") (auto simp: engine_policy_Inl)
  then show "\<exists>e'. fst (manifest_t_ctor ctx name' w') = Inl e'"
    using configure_policy_fails [where ctx = ctx and doc = doc and name = name' and p = p] c by auto
  fix t ts
  assume "doc_type doc = Inr t \<and> engine_timeouts ctx (doc_engine doc) = Inr ts"
  with h have "engine_policy ctx (doc_engine doc) = Inl e" "doc_type doc = Inr t"
    using engine_policy_Inl [of ctx "doc_engine doc" e] by blast+
  then show "fst (manifest_t_ctor ctx name' w') = Inl e"
    using c by (simp add: configure_policy_fails_typed)
qed

text \<open>
  The app \<open>echo\<close> with pool limit 4 is accepted; a pool limit of 0 and a queue limit of 2 with a pool limit of 4 are rejected.
\<close>

theorem policy_limits_positive_witness:
  "(\<exists>m. fst (manifest_t_ctor demo_context ''echo'' demo_world) = Inr m \<and>
        pool_limit (policy m) = 4 \<and> grow_threshold (policy m) = 25) \<and>
   read_uint no_pool_engine ''pool-limit'' (default_pool_limit demo_context mod 2 ^ 32) = Inr 0 \<and>
   engine_limits demo_context no_pool_engine = Inl (configuration_error_t ''engine pool limit must be positive'') \<and>
   read_uint small_queue_engine ''pool-limit'' (default_pool_limit demo_context mod 2 ^ 32) = Inr 4 \<and>
   read_uint small_queue_engine ''queue-limit'' (default_queue_limit demo_context mod 2 ^ 32) = Inr 2 \<and>
   read_uint small_queue_engine ''grow-threshold'' (unat ((2 :: 32 word) div 4)) = Inr 0 \<and>
   fst (load demo_context ''echo'' (cached_world small_queue_doc)) = Inr (small_queue_doc, ''/var/spool/cocaine/echo'') \<and>
   doc_type small_queue_doc = Inr ''python'' \<and>
   engine_timeouts demo_context (doc_engine small_queue_doc) = Inr (10, 30, 600, 5) \<and>
   fst (manifest_t_ctor demo_context ''echo'' (cached_world small_queue_doc)) =
     Inl (configuration_error_t ''engine grow threshold must be positive'')"
  using policy_limits_positive [where ctx = demo_context and name = "''echo''" and w = demo_world
      and m = "\<lparr> manifest_name = ''echo'',
             manifest_root = objectValue [(''engine'', objectValue [(''pool-limit'', uintValue 4)]),
                 (''path'', stringValue ''/var/spool/cocaine/echo''), (''type'', stringValue ''python'')],
             manifest_path = ''/var/spool/cocaine/echo'', manifest_type = ''python'',
             policy = \<lparr> startup_timeout = 10, heartbeat_timeout = 30, idle_timeout = 600,
                 termination_timeout = 5, pool_limit = 4, queue_limit = 100, grow_threshold = 25 \<rparr>,
             slave = ''/usr/bin/cocaine-slave'' \<rparr>"
      and engine = no_pool_engine and engine' = small_queue_engine and pool = 4 and queue = 2
      and name' = "''echo''" and w' = "cached_world small_queue_doc" and doc = small_queue_doc and p = "''/var/spool/cocaine/echo''"
      and e = "configuration_error_t ''engine grow threshold must be positive''"]
  by (simp add: eval_defs no_pool_engine_def small_queue_engine_def small_queue_doc_def)





text \<open>A positive startup timeout that the field holds as zero is rejected as well.\<close>

lemma tiny_startup_rejected:
  "read_double tiny_startup_engine ''startup-timeout'' (default_startup_timeout demo_context) = Inr (1 / 10 ^ 46) \<and>
   time_field demo_context (1 / 10 ^ 46) = 0 \<and>
   engine_timeouts demo_context tiny_startup_engine =
     Inl (configuration_error_t ''slave startup timeout must be positive'')"
  by (simp add: eval_defs tiny_startup_engine_def)

subsection \<open>The default of the grow threshold\<close>

lemma get_assign_other:
  assumes "assign_member e key' v = Inr e'" "key \<noteq> key'"
  shows "get e' key d = get e key d"
proof -
  from assms(1) obtain ms' where e': "e' = objectValue ms'" by (cases e) (auto split: option.splits)
  from assign_member_Inr(2) [OF assms(1), of key] assms(2) have l: "lookup e' key = lookup e key" by simp
  from assms(1) have "e = nullValue \<or> (\<exists>ms. e = objectValue ms)" by (cases e) simp_all
  with l e' show ?thesis by (auto simp: map_find_def)
qed

lemma reads_assign_other:
  assumes "assign_member e key' v = Inr e'" "key \<noteq> key'"
  shows "read_double e' key d = read_double e key d"
    and "read_uint e' key n = read_uint e key n"
    and "read_string e' key s = read_string e key s"
  by (simp_all add: read_double_def read_uint_def read_string_def get_assign_other [OF assms])

lemma engine_timeouts_assign:
  assumes "assign_member e ''grow-threshold'' v = Inr e'"
  shows "engine_timeouts ctx e' = engine_timeouts ctx e"
  by (simp add: engine_timeouts_def reads_assign_other(1) [OF assms] cong: if_cong)

lemma read_uint_explicit:
  assumes "assign_member e key (uintValue g) = Inr e'" "g < 2 ^ 32"
  shows "read_uint e' key n = Inr (word_of_nat g)"
  using assms(2) by (simp add: read_uint_def get_assigned [OF assms(1)] and_then_simps)

lemma read_uint_omitted:
  assumes "lookup e key = None" "read_uint e key n = Inr x" "n < 2 ^ 32"
  shows "x = word_of_nat n"
proof -
  from assms(2) obtain j where j: "get e key (uintValue n) = Inr j" "asUInt j = Inr x"
    by (auto simp: read_uint_def and_then_Inr)
  from get_omitted(1) [OF assms(1) j(1)] j(2) assms(3) show ?thesis by simp
qed

lemma read_uint_members:
  "read_uint e key n = Inr x \<Longrightarrow> e = nullValue \<or> (\<exists>ms. e = objectValue ms)"
  by (cases e) (simp_all add: read_uint_def and_then_simps)

lemma read_uint_omitted_default:
  assumes "lookup e key = None" "read_uint e key' n = Inr x" "n' < 2 ^ 32"
  shows "read_uint e key n' = Inr (word_of_nat n')"
  using read_uint_members [OF assms(2)] assms(1,3)
  by (auto simp: read_uint_def and_then_simps map_find_def)

lemma word_of_nat_nonzero:
  assumes "1 \<le> g" "g < 2 ^ 32"
  shows "(word_of_nat g :: 32 word) \<noteq> 0"
proof
  assume "(word_of_nat g :: 32 word) = 0"
  then have "2 ^ LENGTH(32) dvd g" by (simp add: word_of_nat_eq_0_iff)
  then have "2 ^ 32 \<le> g" using assms(1) by (auto dest: dvd_imp_le)
  with assms(2) show False by simp
qed

lemma unat_div_bound: "unat ((q :: 32 word) div p) < 2 ^ 32"
  using unsigned_less [of "q div p", where ?'a = nat] by simp

lemma engine_limits_omitted:
  assumes "lookup e ''grow-threshold'' = None" "engine_limits ctx e = Inr (pool, queue, grow)"
  shows "grow = queue div pool"
proof -
  from assms(2) have "read_uint e ''grow-threshold'' (unat (queue div pool)) = Inr grow"
    by (simp add: engine_limits_Inr)
  from read_uint_omitted [OF assms(1) this unat_div_bound] show ?thesis by simp
qed

lemma engine_limits_small_queue:
  assumes "lookup e ''grow-threshold'' = None"
      and "read_uint e ''pool-limit'' (default_pool_limit ctx mod 2 ^ 32) = Inr pool"
      and "read_uint e ''queue-limit'' (default_queue_limit ctx mod 2 ^ 32) = Inr queue"
      and "queue < pool"
  shows "engine_limits ctx e = Inl (configuration_error_t ''engine grow threshold must be positive'')"
proof -
  from assms(4) have nz: "pool \<noteq> 0" by auto
  from assms(4) have z: "queue div pool = 0" by (simp add: div_word_less)
  have "read_uint e ''grow-threshold'' (unat (queue div pool)) = Inr (word_of_nat (unat (queue div pool)))"
    by (rule read_uint_omitted_default [OF assms(1,2) unat_div_bound])
  with z have "read_uint e ''grow-threshold'' (unat (queue div pool)) = Inr 0" by simp
  with assms(2,3) nz show ?thesis by (simp add: engine_limits_def and_then_simps)
qed

lemma engine_limits_explicit:
  assumes "assign_member e ''grow-threshold'' (uintValue g) = Inr e'" "1 \<le> g" "g < 2 ^ 32"
      and "read_uint e ''pool-limit'' (default_pool_limit ctx mod 2 ^ 32) = Inr pool" "pool \<noteq> 0"
      and "read_uint e ''queue-limit'' (default_queue_limit ctx mod 2 ^ 32) = Inr queue"
  shows "engine_limits ctx e' = Inr (pool, queue, word_of_nat g)"
proof -
  have "read_uint e' ''pool-limit'' (default_pool_limit ctx mod 2 ^ 32) = Inr pool"
       "read_uint e' ''queue-limit'' (default_queue_limit ctx mod 2 ^ 32) = Inr queue"
    using assms(4,6) by (simp_all add: reads_assign_other(2) [OF assms(1)])
  moreover have "read_uint e' ''grow-threshold'' (unat (queue div pool)) = Inr (word_of_nat g)"
    by (rule read_uint_explicit [OF assms(1,3)])
  ultimately show ?thesis
    using assms(5) word_of_nat_nonzero [OF assms(2,3)] by (simp add: engine_limits_Inr)
qed

lemma subscript_total:
  "d = nullValue \<or> (\<exists>ms. d = objectValue ms) \<Longrightarrow> \<exists>v d'. subscript d key = Inr (v, d')"
  by (auto split: option.splits)

lemma doc_type_lookup:
  assumes "d = nullValue \<or> (\<exists>ms. d = objectValue ms)"
  shows "doc_type d = asString (case lookup d ''type'' of Some x \<Rightarrow> x | None \<Rightarrow> nullValue)"
proof -
  from subscript_total [OF assms] obtain v d' where s: "subscript d ''type'' = Inr (v, d')" by blast
  from subscript_Inr(3) [OF s] s show ?thesis by (simp add: doc_type_def and_then_simps)
qed

lemma assign_member_members:
  assumes "assign_member d key v = Inr d'"
  shows "d = nullValue \<or> (\<exists>ms. d = objectValue ms)" and "\<exists>ms'. d' = objectValue ms'"
  using assms by (cases d; auto split: option.splits)+

lemma doc_type_assign:
  assumes "assign_member doc ''engine'' eng = Inr doc'"
  shows "doc_type doc' = doc_type doc"
proof -
  note m = assign_member_members [OF assms]
  have "lookup doc' ''type'' = lookup doc ''type''"
    using assign_member_Inr(2) [OF assms, of "''type''"] by simp
  then show ?thesis
    using doc_type_lookup [OF m(1)] doc_type_lookup [of doc'] m(2) by auto
qed

lemma doc_engine_assign:
  assumes "assign_member doc ''engine'' eng = Inr doc'"
  shows "doc_engine doc' = eng"
  using assign_member_Inr(1) [OF assms] by (simp add: doc_engine_def)

text \<open>
  C9. When the engine section has no member \<open>grow-threshold\<close>, the grow threshold of an accepted
  configuration is the integer quotient of the queue limit by the pool limit. So a configuration
  without that member whose queue limit is below its pool limit fails the check of the grow threshold
  and never gives a manifest: the constructor throws the configuration error of that check whenever
  the type, the time values and the slave are readable and accepted. The same document with a member
  \<open>grow-threshold\<close> of at least 1 is then accepted, with that grow threshold and the same limits.
\<close>

theorem grow_threshold_default:
  "(lookup engine ''grow-threshold'' = None \<and> engine_limits ctx engine = Inr (pool, queue, grow) \<longrightarrow>
      grow = queue div pool) \<and>
   (lookup (doc_engine doc) ''grow-threshold'' = None \<and>
    read_uint (doc_engine doc) ''pool-limit'' (default_pool_limit ctx mod 2 ^ 32) = Inr pool' \<and>
    read_uint (doc_engine doc) ''queue-limit'' (default_queue_limit ctx mod 2 ^ 32) = Inr queue' \<and>
    queue' < pool' \<longrightarrow>
      engine_limits ctx (doc_engine doc) = Inl (configuration_error_t ''engine grow threshold must be positive'') \<and>
      (\<exists>e. configure ctx name doc p = Inl e) \<and>
      (\<forall>w. fst (load ctx name w) = Inr (doc, p) \<longrightarrow> (\<exists>e. fst (manifest_t_ctor ctx name w) = Inl e)) \<and>
      (\<forall>t ts s. doc_type doc = Inr t \<and> engine_timeouts ctx (doc_engine doc) = Inr ts \<and>
                read_string (doc_engine doc) ''slave'' (default_slave ctx) = Inr s \<longrightarrow>
         configure ctx name doc p = Inl (configuration_error_t ''engine grow threshold must be positive'') \<and>
         (\<forall>g eng doc'. 1 \<le> g \<and> g < 2 ^ 32 \<and>
               assign_member (doc_engine doc) ''grow-threshold'' (uintValue g) = Inr eng \<and>
               assign_member doc ''engine'' eng = Inr doc' \<longrightarrow>
            (\<exists>m. configure ctx name doc' p = Inr m \<and> grow_threshold (policy m) = word_of_nat g \<and>
                 pool_limit (policy m) = pool' \<and> queue_limit (policy m) = queue'))))"
proof (intro conjI impI)
  assume "lookup engine ''grow-threshold'' = None \<and> engine_limits ctx engine = Inr (pool, queue, grow)"
  then show "grow = queue div pool" using engine_limits_omitted by blast
next
  assume h: "lookup (doc_engine doc) ''grow-threshold'' = None \<and>
    read_uint (doc_engine doc) ''pool-limit'' (default_pool_limit ctx mod 2 ^ 32) = Inr pool' \<and>
    read_uint (doc_engine doc) ''queue-limit'' (default_queue_limit ctx mod 2 ^ 32) = Inr queue' \<and>
    queue' < pool'"
  let ?g = "configuration_error_t ''engine grow threshold must be positive''"
  from h show lim: "engine_limits ctx (doc_engine doc) = Inl ?g"
    using engine_limits_small_queue by blast
  then have pol: "\<exists>x. engine_policy ctx (doc_engine doc) = Inl x"
    by (cases "engine_timeouts ctx (doc_engine doc)") (auto simp: engine_policy_Inl)
  then show ex: "\<exists>e. configure ctx name doc p = Inl e"
    using configure_policy_fails [where ctx = ctx and doc = doc and name = name and p = p] by auto
  then show "\<forall>w. fst (load ctx name w) = Inr (doc, p) \<longrightarrow> (\<exists>e. fst (manifest_t_ctor ctx name w) = Inl e)"
    by (simp add: ctor_configure)
  show "\<forall>t ts s. doc_type doc = Inr t \<and> engine_timeouts ctx (doc_engine doc) = Inr ts \<and>
                read_string (doc_engine doc) ''slave'' (default_slave ctx) = Inr s \<longrightarrow>
         configure ctx name doc p = Inl ?g \<and>
         (\<forall>g eng doc'. 1 \<le> g \<and> g < 2 ^ 32 \<and>
               assign_member (doc_engine doc) ''grow-threshold'' (uintValue g) = Inr eng \<and>
               assign_member doc ''engine'' eng = Inr doc' \<longrightarrow>
            (\<exists>m. configure ctx name doc' p = Inr m \<and> grow_threshold (policy m) = word_of_nat g \<and>
                 pool_limit (policy m) = pool' \<and> queue_limit (policy m) = queue'))"
  proof (intro allI impI)
    fix t ts s
    assume ok: "doc_type doc = Inr t \<and> engine_timeouts ctx (doc_engine doc) = Inr ts \<and>
                read_string (doc_engine doc) ''slave'' (default_slave ctx) = Inr s"
    with lim have "engine_policy ctx (doc_engine doc) = Inl ?g"
      using engine_policy_Inl [of ctx "doc_engine doc" ?g] by blast
    with ok have c1: "configure ctx name doc p = Inl ?g"
      by (simp add: configure_policy_fails_typed)
    have c2: "\<forall>g eng doc'. 1 \<le> g \<and> g < 2 ^ 32 \<and>
               assign_member (doc_engine doc) ''grow-threshold'' (uintValue g) = Inr eng \<and>
               assign_member doc ''engine'' eng = Inr doc' \<longrightarrow>
            (\<exists>m. configure ctx name doc' p = Inr m \<and> grow_threshold (policy m) = word_of_nat g \<and>
                 pool_limit (policy m) = pool' \<and> queue_limit (policy m) = queue')"
    proof (intro allI impI)
      fix g eng doc'
      assume a: "1 \<le> g \<and> g < 2 ^ 32 \<and>
               assign_member (doc_engine doc) ''grow-threshold'' (uintValue g) = Inr eng \<and>
               assign_member doc ''engine'' eng = Inr doc'"
      then have a1: "assign_member (doc_engine doc) ''grow-threshold'' (uintValue g) = Inr eng"
        and a2: "assign_member doc ''engine'' eng = Inr doc'" and g: "1 \<le> g" "g < 2 ^ 32"
        by simp_all
      from h have nz: "pool' \<noteq> 0" by auto
      have lim': "engine_limits ctx eng = Inr (pool', queue', word_of_nat g)"
        using engine_limits_explicit [OF a1 g _ nz] h by blast
      obtain s0 h0 i0 t0 where ts: "ts = (s0, h0, i0, t0)" by (cases ts)
      have tm': "engine_timeouts ctx eng = Inr (s0, h0, i0, t0)"
        using ok ts by (simp add: engine_timeouts_assign [OF a1])
      have sl': "read_string eng ''slave'' (default_slave ctx) = Inr s"
        using ok by (simp add: reads_assign_other(3) [OF a1])
      have ty': "doc_type doc' = Inr t" using ok by (simp add: doc_type_assign [OF a2])
      have en': "doc_engine doc' = eng" by (rule doc_engine_assign [OF a2])
      let ?pol = "\<lparr> startup_timeout = s0, heartbeat_timeout = h0, idle_timeout = i0,
           termination_timeout = t0, pool_limit = pool', queue_limit = queue',
           grow_threshold = word_of_nat g \<rparr>"
      have pol': "engine_policy ctx eng = Inr ?pol"
        by (simp add: engine_policy_def tm' lim' and_then_simps)
      from ty' obtain d2 where "configure ctx name doc' p =
         and_then (engine_policy ctx (doc_engine doc')) (\<lambda>pol.
         and_then (read_string (doc_engine doc') ''slave'' (default_slave ctx)) (\<lambda>s.
         Inr \<lparr> manifest_name = name, manifest_root = d2, manifest_path = p,
               manifest_type = t, policy = pol, slave = s \<rparr>))"
        by (rule configure_unfold)
      then have "configure ctx name doc' p =
          Inr \<lparr> manifest_name = name, manifest_root = d2, manifest_path = p,
               manifest_type = t, policy = ?pol, slave = s \<rparr>"
        by (simp add: en' pol' sl' and_then_simps)
      then show "\<exists>m. configure ctx name doc' p = Inr m \<and> grow_threshold (policy m) = word_of_nat g \<and>
                 pool_limit (policy m) = pool' \<and> queue_limit (policy m) = queue'"
        by simp
    qed
    from c1 c2 show "configure ctx name doc p = Inl ?g \<and>
         (\<forall>g eng doc'. 1 \<le> g \<and> g < 2 ^ 32 \<and>
               assign_member (doc_engine doc) ''grow-threshold'' (uintValue g) = Inr eng \<and>
               assign_member doc ''engine'' eng = Inr doc' \<longrightarrow>
            (\<exists>m. configure ctx name doc' p = Inr m \<and> grow_threshold (policy m) = word_of_nat g \<and>
                 pool_limit (policy m) = pool' \<and> queue_limit (policy m) = queue'))"
      by (rule conjI)
  qed
qed

text \<open>
  The defaults give 100 / 10 = 10; a queue limit of 2 with a pool limit of 4 is rejected, and accepted with a grow threshold of 3.
\<close>

theorem grow_threshold_default_witness:
  "lookup nullValue ''grow-threshold'' = None \<and> engine_limits demo_context nullValue = Inr (10, 100, 10) \<and>
   (10 :: 32 word) = 100 div 10 \<and>
   lookup (doc_engine small_queue_doc) ''grow-threshold'' = None \<and>
   read_uint (doc_engine small_queue_doc) ''pool-limit'' (default_pool_limit demo_context mod 2 ^ 32) = Inr 4 \<and>
   read_uint (doc_engine small_queue_doc) ''queue-limit'' (default_queue_limit demo_context mod 2 ^ 32) = Inr 2 \<and>
   (2 :: 32 word) < 4 \<and>
   fst (load demo_context ''echo'' (cached_world small_queue_doc)) = Inr (small_queue_doc, ''/var/spool/cocaine/echo'') \<and>
   fst (manifest_t_ctor demo_context ''echo'' (cached_world small_queue_doc)) =
     Inl (configuration_error_t ''engine grow threshold must be positive'') \<and>
   doc_type small_queue_doc = Inr ''python'' \<and>
   engine_timeouts demo_context (doc_engine small_queue_doc) = Inr (10, 30, 600, 5) \<and>
   read_string (doc_engine small_queue_doc) ''slave'' (default_slave demo_context) = Inr ''/usr/bin/cocaine-slave'' \<and>
   (1 :: nat) \<le> 3 \<and> (3 :: nat) < 2 ^ 32 \<and>
   assign_member (doc_engine small_queue_doc) ''grow-threshold'' (uintValue 3) = Inr explicit_grow_engine \<and>
   assign_member small_queue_doc ''engine'' explicit_grow_engine = Inr explicit_grow_doc \<and>
   (\<exists>m. configure demo_context ''echo'' explicit_grow_doc ''/var/spool/cocaine/echo'' = Inr m \<and>
        grow_threshold (policy m) = 3 \<and> pool_limit (policy m) = 4 \<and> queue_limit (policy m) = 2)"
  using grow_threshold_default [where ctx = demo_context and engine = nullValue and pool = 10 and queue = 100
      and grow = 10 and doc = small_queue_doc and pool' = 4 and queue' = 2 and name = "''echo''"
      and p = "''/var/spool/cocaine/echo''"]
  by (simp add: eval_defs small_queue_doc_def small_queue_engine_def explicit_grow_engine_def explicit_grow_doc_def)

subsection \<open>The round trip through the cache\<close>

lemma deploy_path:
  assumes "fst (deploy ctx name w) = Inr (doc, p)"
  shows "lookup doc ''path'' = Some (stringValue p)"
  using assms
  by (auto simp: deploy_def Let_def dest: lookup_assign_member split: sum.splits option.splits)

lemma load_path:
  assumes "fst (load ctx name w) = Inr (doc, p)"
  shows "\<exists>pv. lookup doc ''path'' = Some pv \<and> asString pv = Inr p"
proof (cases "documents (cache w) (''manifests'', name)")
  case (Inr d0)
  with assms obtain pv where "subscript d0 ''path'' = Inr (pv, doc)" "asString pv = Inr p"
    by (auto simp: load_hit and_then_Inr)
  with subscript_Inr(1) show ?thesis by blast
next
  case (Inl m)
  define w2 where "w2 = emit (Log info ''the manifest hasn't been found in the cache'') (emit (CacheGet ''manifests'' name) w)"
  from assms Inl have "fst (deploy ctx name w2) = Inr (doc, p)"
    by (auto simp: load_def Let_def emit_fields w2_def split: sum.splits prod.splits)
  from deploy_path [OF this] show ?thesis by simp
qed

lemma load_stores:
  assumes "load ctx name w = (Inr (doc, p), w1)"
  shows "\<exists>d1. documents (cache w1) (''manifests'', name) = Inr d1 \<and>
              and_then (subscript d1 ''path'') (\<lambda>(v, doc'). and_then (asString v) (\<lambda>path. Inr (doc', path))) = Inr (doc, p)"
proof (cases "documents (cache w) (''manifests'', name)")
  case (Inr d0)
  with assms show ?thesis by (auto simp: load_hit emit_fields)
next
  case (Inl m)
  define w2 where "w2 = emit (Log info ''the manifest hasn't been found in the cache'') (emit (CacheGet ''manifests'' name) w)"
  obtain r w3 where d: "deploy ctx name w2 = (r, w3)" by (cases "deploy ctx name w2")
  from assms Inl d have r: "r = Inr (doc, p)"
    and st: "documents (cache w1) (''manifests'', name) = Inr doc"
    by (auto simp: load_def Let_def emit_fields w2_def storage_put_def split: sum.splits prod.splits option.splits)
  from d r have "fst (deploy ctx name w2) = Inr (doc, p)" by simp
  from deploy_path [OF this] have "subscript doc ''path'' = Inr (stringValue p, doc)"
    by (rule subscript_present)
  with st show ?thesis by (simp add: and_then_simps)
qed

lemma configure_unfold_ex:
  assumes "doc_type doc = Inr t"
  shows "\<exists>d2 tv.
    configure ctx name doc p =
       and_then (engine_policy ctx (doc_engine doc)) (\<lambda>pol.
       and_then (read_string (doc_engine doc) ''slave'' (default_slave ctx)) (\<lambda>s.
       Inr \<lparr> manifest_name = name, manifest_root = d2, manifest_path = p,
             manifest_type = t, policy = pol, slave = s \<rparr>)) \<and>
    lookup d2 ''type'' = Some tv \<and> asString tv = Inr t \<and> lookup d2 ''engine'' = Some (doc_engine doc) \<and>
    (\<forall>k. k \<noteq> ''type'' \<longrightarrow> k \<noteq> ''engine'' \<longrightarrow> lookup d2 k = lookup doc k)"
  by (rule configure_unfold [OF assms, where ctx = ctx and name = name and p = p]) blast

lemma ctor_valid:
  assumes "fst (manifest_t_ctor ctx name w) = Inr m"
  shows "valid_manifest ctx name m"
proof -
  from assms obtain doc p where ld: "fst (load ctx name w) = Inr (doc, p)"
    and c: "configure ctx name doc p = Inr m" by (rule ctor_Inr)
  from load_path [OF ld] obtain pv where pv: "lookup doc ''path'' = Some pv" "asString pv = Inr p" by blast
  have "\<exists>t. doc_type doc = Inr t"
    using c configure_type_fails [of doc _ ctx name p] by (cases "doc_type doc") auto
  then obtain t where t: "doc_type doc = Inr t" by blast
  from t obtain d2 tv where u:
    "configure ctx name doc p =
       and_then (engine_policy ctx (doc_engine doc)) (\<lambda>pol.
       and_then (read_string (doc_engine doc) ''slave'' (default_slave ctx)) (\<lambda>s.
       Inr \<lparr> manifest_name = name, manifest_root = d2, manifest_path = p,
             manifest_type = t, policy = pol, slave = s \<rparr>))"
    "lookup d2 ''type'' = Some tv" "asString tv = Inr t" "lookup d2 ''engine'' = Some (doc_engine doc)"
    "\<And>k. k \<noteq> ''type'' \<Longrightarrow> k \<noteq> ''engine'' \<Longrightarrow> lookup d2 k = lookup doc k"
    using configure_unfold_ex [of doc t ctx name p] by blast
  from c u(1) obtain pol s where pol: "engine_policy ctx (doc_engine doc) = Inr pol"
    and s: "read_string (doc_engine doc) ''slave'' (default_slave ctx) = Inr s"
    and m: "m = \<lparr> manifest_name = name, manifest_root = d2, manifest_path = p,
             manifest_type = t, policy = pol, slave = s \<rparr>"
    by (auto simp: and_then_Inr)
  have "lookup d2 ''path'' = Some pv" using u(5) [of "''path''"] pv(1) by simp
  with pv(2) u(2,3,4) pol s show ?thesis
    by (simp add: valid_manifest_def m)
qed

lemma valid_manifest_document:
  assumes "valid_manifest ctx name m"
  shows "manifest_of_document ctx name (manifest_root m) = Inr m"
proof -
  from assms obtain pv tv e where
    l: "lookup (manifest_root m) ''path'' = Some pv" "asString pv = Inr (manifest_path m)"
       "lookup (manifest_root m) ''type'' = Some tv" "asString tv = Inr (manifest_type m)"
       "lookup (manifest_root m) ''engine'' = Some e" "engine_policy ctx e = Inr (policy m)"
       "read_string e ''slave'' (default_slave ctx) = Inr (slave m)"
    and n: "manifest_name m = name"
    by (auto simp: valid_manifest_def split: option.splits)
  have s1: "subscript (manifest_root m) ''path'' = Inr (pv, manifest_root m)"
    using l(1) by (rule subscript_present)
  have s2: "subscript (manifest_root m) ''type'' = Inr (tv, manifest_root m)"
    using l(3) by (rule subscript_present)
  have s3: "subscript (manifest_root m) ''engine'' = Inr (e, manifest_root m)"
    using l(5) by (rule subscript_present)
  have "manifest_of_document ctx name (manifest_root m) =
      Inr \<lparr> manifest_name = manifest_name m, manifest_root = manifest_root m,
            manifest_path = manifest_path m, manifest_type = manifest_type m,
            policy = policy m, slave = slave m \<rparr>"
    by (simp add: manifest_of_document_def configure_def s1 s2 s3 l(2,4,6,7) n and_then_simps)
  then show ?thesis by simp
qed

text \<open>
  C7. Let \<open>m\<close> be a valid manifest of a name: any manifest value with that name whose root has
  the members \<open>path\<close>, \<open>type\<close> and \<open>engine\<close> and whose fields are what they say. When the
  root of \<open>m\<close> is put into the cache under \<open>(manifests, name)\<close>, the constructor called for
  that name returns \<open>m\<close> itself, the path included, and all it does to the world is to read the
  cache: the core storage is not asked and the spool is not touched. Whatever document is put
  there, what the constructor returns is what its second part makes of that document. Every
  manifest that the constructor builds is a valid one.
\<close>

theorem manifest_cache_round_trip:
  assumes "valid_manifest ctx name m"
      and "storage_put (cache w) (''manifests'', name) (manifest_root m) = Inr cache'"
  shows "manifest_t_ctor ctx name (w\<lparr> cache := cache' \<rparr>) =
           (Inr m, w\<lparr> cache := cache', trace := trace w @ [CacheGet ''manifests'' name] \<rparr>) \<and>
         (\<forall>doc c. storage_put (cache w) (''manifests'', name) doc = Inr c \<longrightarrow>
            manifest_t_ctor ctx name (w\<lparr> cache := c \<rparr>) =
              (manifest_of_document ctx name doc,
               w\<lparr> cache := c, trace := trace w @ [CacheGet ''manifests'' name] \<rparr>)) \<and>
         (\<forall>w0 m0. fst (manifest_t_ctor ctx name w0) = Inr m0 \<longrightarrow> valid_manifest ctx name m0)"
proof (intro conjI allI impI)
  have any: "manifest_t_ctor ctx name (w\<lparr> cache := c \<rparr>) =
      (manifest_of_document ctx name doc, w\<lparr> cache := c, trace := trace w @ [CacheGet ''manifests'' name] \<rparr>)"
    if "storage_put (cache w) (''manifests'', name) doc = Inr c" for doc c
  proof -
    from that have "documents c (''manifests'', name) = Inr doc"
      by (auto simp: storage_put_def split: option.splits)
    then have "manifest_t_ctor ctx name (w\<lparr> cache := c \<rparr>) =
        (manifest_of_document ctx name doc, emit (CacheGet ''manifests'' name) (w\<lparr> cache := c \<rparr>))"
      by (intro ctor_hit) simp
    then show ?thesis by (simp add: emit_def)
  qed
  from any [OF assms(2)] show "manifest_t_ctor ctx name (w\<lparr> cache := cache' \<rparr>) =
           (Inr m, w\<lparr> cache := cache', trace := trace w @ [CacheGet ''manifests'' name] \<rparr>)"
    by (simp add: valid_manifest_document [OF assms(1)])
  fix doc c
  assume "storage_put (cache w) (''manifests'', name) doc = Inr c"
  then show "manifest_t_ctor ctx name (w\<lparr> cache := c \<rparr>) =
              (manifest_of_document ctx name doc,
               w\<lparr> cache := c, trace := trace w @ [CacheGet ''manifests'' name] \<rparr>)"
    by (rule any)
next
  fix w0 m0
  assume "fst (manifest_t_ctor ctx name w0) = Inr m0"
  then show "valid_manifest ctx name m0" by (rule ctor_valid)
qed

text \<open>
  A manifest of \<open>echo\<close> with a type, a path, a heartbeat timeout, a pool limit and a slave of its
  own, put into the cache of a world whose core storage has no app: the constructor returns it.
\<close>

theorem manifest_cache_round_trip_witness:
  "valid_manifest demo_context ''echo'' demo_manifest \<and>
   storage_put (cache bare_world) (''manifests'', ''echo'') (manifest_root demo_manifest) = Inr demo_cache \<and>
   manifest_t_ctor demo_context ''echo'' (bare_world\<lparr> cache := demo_cache \<rparr>) =
     (Inr demo_manifest,
      bare_world\<lparr> cache := demo_cache, trace := trace bare_world @ [CacheGet ''manifests'' ''echo''] \<rparr>) \<and>
   manifest_type demo_manifest = ''binary'' \<and> manifest_path demo_manifest = ''/srv/echo'' \<and>
   heartbeat_timeout (policy demo_manifest) = 7 \<and> pool_limit (policy demo_manifest) = 3 \<and>
   grow_threshold (policy demo_manifest) = 33 \<and> slave demo_manifest = ''/opt/slave'' \<and>
   documents (core bare_world) (''manifests'', ''echo'') = Inl ''the specified object has not been found''"
proof -
  have h1: "valid_manifest demo_context ''echo'' demo_manifest"
    by (simp add: valid_manifest_def demo_manifest_def demo_context_def demo_time_field_def
          engine_policy_def engine_timeouts_def engine_limits_def read_double_def read_uint_def
          read_string_def and_then_def map_find_def)
  have h2: "storage_put (cache bare_world) (''manifests'', ''echo'') (manifest_root demo_manifest) = Inr demo_cache"
    by (simp add: bare_world_def empty_storage_def storage_put_def demo_cache_def)
  from manifest_cache_round_trip [OF h1 h2] h1 h2 show ?thesis
    by (simp add: demo_manifest_def) (simp add: bare_world_def empty_storage_def)
qed

end
